theory Spec2Isabelle
  imports Main
begin

section \<open>Python values\<close>

text \<open>
  Every Python value the validator handles (objects, classes, type hints) is a reference.
  The well-known singletons that \<^verbatim>\<open>_generic.py\<close> names are constructors of their own;
  every other object is an address. \<^verbatim>\<open>x is y\<close> is equality of references.
\<close>

datatype ref =
    PyNone | NoneType | AnyT | EllipsisV | Protocol
  | Required | NotRequired | ReadOnly | Never
  | Mapping | Set | Sequence | Collection | Iterable | Callable
  | Addr nat

text \<open>\<^verbatim>\<open>id(obj)\<close>: an injective numbering of the references that are alive.\<close>

fun py_id :: "ref \<Rightarrow> int" where
  "py_id PyNone = 0"
| "py_id NoneType = 1"
| "py_id AnyT = 2"
| "py_id EllipsisV = 3"
| "py_id Protocol = 4"
| "py_id Required = 5"
| "py_id NotRequired = 6"
| "py_id ReadOnly = 7"
| "py_id Never = 8"
| "py_id Mapping = 9"
| "py_id Set = 10"
| "py_id Sequence = 11"
| "py_id Collection = 12"
| "py_id Iterable = 13"
| "py_id Callable = 14"
| "py_id (Addr n) = 15 + int n"

section \<open>CacheKey (\<^verbatim>\<open>_validation_cache/_cache_key.py\<close>)\<close>

record CacheKey =
  obj_type :: ref
  instance_id :: int

text \<open>\<^verbatim>\<open>CacheKey.__init__(cls_type, obj)\<close>: \<^verbatim>\<open>None\<close> is replaced by \<^verbatim>\<open>type(None)\<close>.\<close>

definition CacheKey_init :: "ref \<Rightarrow> ref \<Rightarrow> CacheKey" where
  "CacheKey_init cls_type obj =
     \<lparr>obj_type = (if cls_type = PyNone then NoneType else cls_type),
      instance_id = py_id obj\<rparr>"

text \<open>
  \<^verbatim>\<open>CacheKey.__hash__\<close> hashes the pair of fields with Python's built-in tuple hash,
  which is a parameter here.
\<close>

definition CacheKey_hash :: "(ref \<times> int \<Rightarrow> int) \<Rightarrow> CacheKey \<Rightarrow> int" where
  "CacheKey_hash py_hash self = py_hash (obj_type self, instance_id self)"

text \<open>
  \<^verbatim>\<open>CacheKey.__eq__(other)\<close>: \<open>other\<close> is either a CacheKey (\<open>Inl\<close>) or any other
  object (\<open>Inr\<close>), for which the method returns \<^verbatim>\<open>NotImplemented\<close>.
\<close>

datatype eq_result = NotImplemented | Bool bool

definition CacheKey_eq :: "CacheKey \<Rightarrow> CacheKey + ref \<Rightarrow> eq_result" where
  "CacheKey_eq self other =
     (case other of
        Inr _ \<Rightarrow> NotImplemented
      | Inl k \<Rightarrow> Bool ((obj_type self, instance_id self) = (obj_type k, instance_id k)))"

section \<open>The data of \<^verbatim>\<open>_check_generic\<close>\<close>

text \<open>
  Modelled from the spec: \<^verbatim>\<open>CheckResult\<close> (\<^verbatim>\<open>_check_result.py\<close>) pairs
  \<open>is_valid\<close> and \<open>is_immutable\<close>; the source reads \<^verbatim>\<open>result.valid\<close> and
  \<^verbatim>\<open>result.immutable\<close> and unpacks it as a pair.
\<close>

record CheckResult =
  valid :: bool
  immutable :: bool

text \<open>
  Modelled from the spec: the four flags of \<^verbatim>\<open>_constants.py\<close>, used by the source as
  the two fields of a CheckResult.
\<close>

definition IS_VALID :: bool where "IS_VALID = True"
definition NOT_VALID :: bool where "NOT_VALID = False"
definition IS_IMMUTABLE :: bool where "IS_IMMUTABLE = True"
definition NOT_IMMUTABLE :: bool where "NOT_IMMUTABLE = False"

text \<open>
  Modelled from the spec: \<^verbatim>\<open>Options\<close> (\<^verbatim>\<open>_options.py\<close>) carries the set of types the
  caller has declared non-cacheable.
\<close>

record Options =
  noncachable_types :: "ref set"

text \<open>
  Modelled from the spec: \<^verbatim>\<open>ValidationState\<close> (\<^verbatim>\<open>_validation_state.py\<close>) is the
  cycle-guard token (object identity, type hint, context label).
\<close>

type_synonym ValidationState = "int \<times> ref \<times> string"

text \<open>
  The tags of \<^verbatim>\<open>TypeHintsErrorTag\<close> that \<^verbatim>\<open>_generic.py\<close> uses, and the message
  templates of its \<^verbatim>\<open>raise\<close> statements in the order of the source (the interpolated
  names are left out).
\<close>

datatype TypeHintsErrorTag =
  TYPE_HINT_MISMATCH | NON_RUNTIME_CHECKABLE_PROTOCOL | VALIDATION_FAILED

datatype message =
    CachedNotInstanceOfTypeHint
  | ProtocolNotRuntimeCheckable
  | NotInstanceOfHint
  | NotInstanceOfOrigin
  | OriginInvalidOutsideTypedDict
  | OriginInvalidForIsinstance
  | NotInstanceOfGenericTypeHint
  | GenericParameterMismatch

text \<open>
  Exceptions: the library's typed error, and the raw Python exceptions that the source lets
  through (\<^verbatim>\<open>TypeError\<close> of an unguarded \<^verbatim>\<open>isinstance\<close>/\<^verbatim>\<open>issubclass\<close>,
  \<^verbatim>\<open>IndexError\<close> of \<^verbatim>\<open>args[0]\<close>, \<^verbatim>\<open>AttributeError\<close> of \<^verbatim>\<open>origin.__name__\<close>).
\<close>

datatype error =
    TypeCheckedTypeError message TypeHintsErrorTag
  | PyTypeError
  | PyIndexError
  | PyAttributeError

text \<open>
  What the source observes of the Python runtime. \<open>None\<close> as the result of
  \<open>isinstance\<close> or \<open>issubclass\<close> stands for the call raising \<^verbatim>\<open>TypeError\<close>;
  \<open>None\<close> for an attribute stands for its absence. \<open>is_immutable\<close> is the classifier
  of \<^verbatim>\<open>_immutable\<close>, whose code is not part of the sources at hand.
\<close>

record world =
  is_immutable :: "ref \<Rightarrow> bool"
  type_of :: "ref \<Rightarrow> ref"
  mro :: "ref \<Rightarrow> ref list option"
  is_runtime_protocol :: "ref \<Rightarrow> bool"
  is_class :: "ref \<Rightarrow> bool"
  isinstance :: "ref \<Rightarrow> ref \<Rightarrow> bool option"
  issubclass :: "ref \<Rightarrow> ref \<Rightarrow> bool option"
  truthy :: "ref \<Rightarrow> bool"
  has_name :: "ref \<Rightarrow> bool"
  orig_class :: "ref \<Rightarrow> ref option"
  dunder_args :: "ref \<Rightarrow> ref list option"
  dunder_origin :: "ref \<Rightarrow> ref option"
  iter_items :: "ref \<Rightarrow> ref list option"

text \<open>
  The mutable state: the global validation cache, and the store of the \<^verbatim>\<open>set\<close> objects
  that hold cycle-guard tokens. A parents set is passed by reference, as an address of the
  store; \<open>next_set\<close> is the first address never handed out.
\<close>

record state =
  cache :: "CacheKey \<Rightarrow> bool option"
  sets :: "nat \<Rightarrow> ValidationState set"
  next_set :: nat

text \<open>
  Modelled from the spec: \<^verbatim>\<open>_CACHE.valid_in_cache\<close> returns the cached verdict for
  (type hint, identity of the object), or \<^verbatim>\<open>None\<close>.
\<close>

definition valid_in_cache :: "state \<Rightarrow> ref \<Rightarrow> ref \<Rightarrow> bool option" where
  "valid_in_cache s type_hint obj = cache s (CacheKey_init type_hint obj)"

text \<open>
  Modelled from the spec: \<^verbatim>\<open>_CACHE.add_cache_entry\<close> writes the verdict unless
  \<^verbatim>\<open>type(obj)\<close> is in \<open>noncachable_types\<close>; it does not check immutability itself.
\<close>

definition add_cache_entry ::
  "world \<Rightarrow> ref \<Rightarrow> ref \<Rightarrow> bool \<Rightarrow> ref set \<Rightarrow> state \<Rightarrow> state" where
  "add_cache_entry w type_hint obj verdict noncachable s =
     (if type_of w obj \<in> noncachable then s
      else s\<lparr>cache := (cache s)(CacheKey_init type_hint obj \<mapsto> verdict)\<rparr>)"

text \<open>\<^verbatim>\<open>parents.copy()\<close> allocates a new set object; \<^verbatim>\<open>set.add\<close> updates one in place.\<close>

definition set_copy :: "state \<Rightarrow> nat \<Rightarrow> state \<times> nat" where
  "set_copy s p =
     (s\<lparr>sets := (sets s)(next_set s := sets s p), next_set := Suc (next_set s)\<rparr>, next_set s)"

definition set_add :: "state \<Rightarrow> nat \<Rightarrow> ValidationState \<Rightarrow> state" where
  "set_add s p token = s\<lparr>sets := (sets s)(p := insert token (sets s p))\<rparr>"

text \<open>Lines 152 and 153: the copy of \<open>parents\<close> that holds the token of this call as well.\<close>

definition extend_parents :: "state \<Rightarrow> nat \<Rightarrow> ValidationState \<Rightarrow> state \<times> nat" where
  "extend_parents s parents token =
     (case set_copy s parents of
        (s1, new_parents) \<Rightarrow> (set_add s1 new_parents token, new_parents))"

text \<open>
  A call either does not return (\<open>None\<close>), or leaves a state and raises (\<open>Inl\<close>) or
  returns (\<open>Inr\<close>).
\<close>

type_synonym 'a outcome = "(state \<times> (error + 'a)) option"

text \<open>
  The functions that \<^verbatim>\<open>_check_generic\<close> imports from modules that are not part of the
  sources at hand: the six structural matchers of \<^verbatim>\<open>_collections_abc\<close> and the entry
  point \<^verbatim>\<open>_check_instance_of_typehint\<close>. Their arguments are in the order of the source.
\<close>

type_synonym matcher =
  "state \<Rightarrow> ref \<Rightarrow> ref \<Rightarrow> ref \<Rightarrow> ref list \<Rightarrow> Options \<Rightarrow> nat \<Rightarrow> bool \<Rightarrow> CheckResult outcome"

type_synonym callable_matcher =
  "state \<Rightarrow> ref \<Rightarrow> ref \<Rightarrow> ref \<Rightarrow> ref list \<Rightarrow> bool \<Rightarrow> CheckResult outcome"

type_synonym entry_point =
  "state \<Rightarrow> ref \<Rightarrow> ref \<Rightarrow> Options \<Rightarrow> nat \<Rightarrow> bool \<Rightarrow> string \<Rightarrow> CheckResult outcome"

record collaborators =
  check_collections_abc_mapping :: matcher
  check_collections_abc_set :: matcher
  check_collections_abc_sequence :: matcher
  check_collections_abc_collection :: matcher
  check_collections_abc_iterable :: matcher
  check_collections_abc_callable :: callable_matcher
  check_instance_of_typehint :: entry_point

section \<open>\<^verbatim>\<open>_check_generic\<close> (\<^verbatim>\<open>_generic.py\<close>)\<close>

text \<open>Lines 79 to 81: the hint has Protocol among its bases and is not runtime-checkable.\<close>

definition non_runtime_protocol :: "world \<Rightarrow> ref \<Rightarrow> bool" where
  "non_runtime_protocol w type_hint =
     (case mro w type_hint of
        None \<Rightarrow> False
      | Some bases \<Rightarrow> Protocol \<in> set bases \<and> \<not> is_runtime_protocol w type_hint)"

text \<open>
  Lines 88 to 100: a bare class hint gets the origin and the arguments of the container or
  callable shape that it is a subclass of.
\<close>

definition implied_origin :: "world \<Rightarrow> ref \<Rightarrow> ref \<Rightarrow> ref list \<Rightarrow> error + ref \<times> ref list" where
  "implied_origin w type_hint origin args =
     (if origin = PyNone \<and> is_class w type_hint then
        (case issubclass w type_hint Mapping of
           None \<Rightarrow> Inl PyTypeError
         | Some True \<Rightarrow> Inr (type_hint, [AnyT, AnyT])
         | Some False \<Rightarrow>
             (case issubclass w type_hint Iterable of
                None \<Rightarrow> Inl PyTypeError
              | Some True \<Rightarrow> Inr (type_hint, [AnyT])
              | Some False \<Rightarrow>
                  (case issubclass w type_hint Callable of
                     None \<Rightarrow> Inl PyTypeError
                   | Some True \<Rightarrow> Inr (type_hint, [EllipsisV, AnyT])
                   | Some False \<Rightarrow> Inr (origin, args))))
      else Inr (origin, args))"

text \<open>
  Lines 158 to 161: \<^verbatim>\<open>issubclass(origin, (Iterable, Callable))\<close>, with a \<^verbatim>\<open>TypeError\<close>
  read as \<open>False\<close>.
\<close>

definition is_collections_abc :: "world \<Rightarrow> ref \<Rightarrow> bool" where
  "is_collections_abc w origin =
     (case issubclass w origin Iterable of
        None \<Rightarrow> False
      | Some True \<Rightarrow> True
      | Some False \<Rightarrow> (case issubclass w origin Callable of None \<Rightarrow> False | Some b \<Rightarrow> b))"

text \<open>
  Lines 168 to 185: the \<^verbatim>\<open>if\<close>/\<^verbatim>\<open>elif\<close> chain, as the list of its tests in the order of
  the source. The first test that holds names the matcher; a test that raises
  \<^verbatim>\<open>TypeError\<close> is not guarded by the source.
\<close>

datatype matcher_kind =
  MappingMatcher | SetMatcher | SequenceMatcher | CollectionMatcher | IterableMatcher
  | CallableMatcher

definition matcher_order :: "(ref \<times> matcher_kind) list" where
  "matcher_order =
     [(Mapping, MappingMatcher), (Set, SetMatcher), (Sequence, SequenceMatcher),
      (Collection, CollectionMatcher), (Iterable, IterableMatcher),
      (Callable, CallableMatcher)]"

fun first_match :: "world \<Rightarrow> ref \<Rightarrow> (ref \<times> matcher_kind) list \<Rightarrow> error + matcher_kind option" where
  "first_match w origin [] = Inr None"
| "first_match w origin ((abc, k) # rest) =
     (case issubclass w origin abc of
        None \<Rightarrow> Inl PyTypeError
      | Some True \<Rightarrow> Inr (Some k)
      | Some False \<Rightarrow> first_match w origin rest)"

definition dispatch :: "world \<Rightarrow> ref \<Rightarrow> error + matcher_kind option" where
  "dispatch w origin =
     (if truthy w origin \<and> is_collections_abc w origin
      then first_match w origin matcher_order
      else Inr None)"

definition run_matcher :: "collaborators \<Rightarrow> matcher_kind \<Rightarrow> matcher" where
  "run_matcher c k s obj type_hint origin args options new_parents raise_on_error =
     (case k of
        MappingMatcher \<Rightarrow>
          check_collections_abc_mapping c s obj type_hint origin args options new_parents
            raise_on_error
      | SetMatcher \<Rightarrow>
          check_collections_abc_set c s obj type_hint origin args options new_parents
            raise_on_error
      | SequenceMatcher \<Rightarrow>
          check_collections_abc_sequence c s obj type_hint origin args options new_parents
            raise_on_error
      | CollectionMatcher \<Rightarrow>
          check_collections_abc_collection c s obj type_hint origin args options new_parents
            raise_on_error
      | IterableMatcher \<Rightarrow>
          check_collections_abc_iterable c s obj type_hint origin args options new_parents
            raise_on_error
      | CallableMatcher \<Rightarrow>
          check_collections_abc_callable c s obj type_hint origin args raise_on_error)"

text \<open>
  The three loops of the fallback (lines 205 to 214, 226 to 235, 242 to 251) differ in the
  context label and in the error raised. Each folds the immutable flags of the nested
  checks into \<open>obj_is_immutable\<close>, and leaves the function at the first invalid item.
\<close>

datatype loop_exit = Returned CheckResult | Completed bool

fun check_each ::
  "entry_point \<Rightarrow> state \<Rightarrow> (ref \<times> ref) list \<Rightarrow> Options \<Rightarrow> nat \<Rightarrow> bool \<Rightarrow> string \<Rightarrow> error
     \<Rightarrow> bool \<Rightarrow> loop_exit outcome" where
  "check_each chk s [] options parents raise_on_error context err obj_is_immutable =
     Some (s, Inr (Completed obj_is_immutable))"
| "check_each chk s ((item, hint) # rest) options parents raise_on_error context err
     obj_is_immutable =
     (case chk s item hint options parents raise_on_error context of
        None \<Rightarrow> None
      | Some (s', Inl e) \<Rightarrow> Some (s', Inl e)
      | Some (s', Inr r) \<Rightarrow>
          (if \<not> valid r then
             (if raise_on_error then Some (s', Inl err)
              else Some (s', Inr (Returned \<lparr>valid = NOT_VALID, immutable = NOT_IMMUTABLE\<rparr>)))
           else check_each chk s' rest options parents raise_on_error context err
                  (obj_is_immutable \<and> immutable r)))"

text \<open>
  Lines 253 to 262: cache when immutable, return valid. Lines 105 to 108, 140 to 142,
  216 to 218 and 236 to 238 are the same statements.
\<close>

definition return_valid ::
  "world \<Rightarrow> state \<Rightarrow> ref \<Rightarrow> ref \<Rightarrow> Options \<Rightarrow> bool \<Rightarrow> CheckResult outcome" where
  "return_valid w s type_hint obj options obj_is_immutable =
     Some ((if obj_is_immutable
            then add_cache_entry w type_hint obj IS_VALID (noncachable_types options) s
            else s),
           Inr \<lparr>valid = IS_VALID, immutable = obj_is_immutable\<rparr>)"

definition finish_loop ::
  "world \<Rightarrow> ref \<Rightarrow> ref \<Rightarrow> Options \<Rightarrow> loop_exit outcome \<Rightarrow> CheckResult outcome" where
  "finish_loop w type_hint obj options looped =
     (case looped of
        None \<Rightarrow> None
      | Some (s, Inl e) \<Rightarrow> Some (s, Inl e)
      | Some (s, Inr (Returned r)) \<Rightarrow> Some (s, Inr r)
      | Some (s, Inr (Completed obj_is_immutable)) \<Rightarrow>
          return_valid w s type_hint obj options obj_is_immutable)"

text \<open>
  Lines 202 to 204 and 221 to 225: the type arguments that the object records, through
  \<^verbatim>\<open>__orig_class__\<close> or else through its runtime type, when they are as many as the
  arguments of the hint. The two branches then run the same loop (lines 205 to 218 and
  226 to 238).
\<close>

definition recorded_parameters :: "world \<Rightarrow> ref \<Rightarrow> ref \<Rightarrow> ref list \<Rightarrow> ref list option" where
  "recorded_parameters w obj origin args =
     (case orig_class w obj of
        Some oc \<Rightarrow>
          (let obj_args = (case dunder_args w oc of None \<Rightarrow> [] | Some xs \<Rightarrow> xs)
           in if length obj_args = length args then Some obj_args else None)
      | None \<Rightarrow>
          (let obj_type = type_of w obj;
               obj_origin = (case dunder_origin w obj_type of None \<Rightarrow> PyNone | Some x \<Rightarrow> x)
           in case dunder_args w obj_type of
                None \<Rightarrow> None
              | Some obj_args \<Rightarrow>
                  (if obj_origin = origin \<and> length obj_args = length args
                   then Some obj_args else None)))"

text \<open>
  Lines 196 to 262: the fallback for user-defined generics. The nested checks get
  \<open>parents\<close>, the set of the caller. \<^verbatim>\<open>args[0]\<close> is evaluated once per item, so it
  raises \<^verbatim>\<open>IndexError\<close> when there is an item and no argument.
\<close>

definition fallback ::
  "world \<Rightarrow> collaborators \<Rightarrow> state \<Rightarrow> ref \<Rightarrow> ref \<Rightarrow> ref \<Rightarrow> ref list \<Rightarrow> Options \<Rightarrow> nat \<Rightarrow> bool
     \<Rightarrow> bool \<Rightarrow> CheckResult outcome" where
  "fallback w c s obj type_hint origin args options parents raise_on_error obj_is_immutable =
     (case recorded_parameters w obj origin args of
        Some obj_args \<Rightarrow>
          finish_loop w type_hint obj options
            (check_each (check_instance_of_typehint c) s (zip obj_args args) options parents
               raise_on_error ''generic_parameter''
               (TypeCheckedTypeError GenericParameterMismatch VALIDATION_FAILED)
               obj_is_immutable)
      | None \<Rightarrow>
          (case iter_items w obj of
             None \<Rightarrow> return_valid w s type_hint obj options obj_is_immutable
           | Some items \<Rightarrow>
               (case args of
                  [] \<Rightarrow>
                    (if items = []
                     then return_valid w s type_hint obj options obj_is_immutable
                     else Some (s, Inl PyIndexError))
                | hint # _ \<Rightarrow>
                    finish_loop w type_hint obj options
                      (check_each (check_instance_of_typehint c) s
                         (map (\<lambda>item. (item, hint)) items) options parents raise_on_error
                         ''generic_item''
                         (TypeCheckedTypeError NotInstanceOfGenericTypeHint TYPE_HINT_MISMATCH)
                         obj_is_immutable))))"

text \<open>Lines 187 to 194: what is done with the result of the matcher that ran.\<close>

definition after_matcher ::
  "world \<Rightarrow> ref \<Rightarrow> ref \<Rightarrow> Options \<Rightarrow> bool \<Rightarrow> CheckResult outcome \<Rightarrow> CheckResult outcome" where
  "after_matcher w type_hint obj options raise_on_error matched =
     (case matched of
        None \<Rightarrow> None
      | Some (s, Inl e) \<Rightarrow> Some (s, Inl e)
      | Some (s, Inr result) \<Rightarrow>
          (let s' = (if valid result \<and> immutable result
                     then add_cache_entry w type_hint obj (immutable result)
                            (noncachable_types options) s
                     else s)
           in if raise_on_error \<and> \<not> valid result
              then Some (s', Inl (TypeCheckedTypeError NotInstanceOfGenericTypeHint
                                    TYPE_HINT_MISMATCH))
              else Some (s', Inr result)))"

text \<open>
  Lines 137 to 262: from the test for a non-parameterized generic on, with \<open>origin\<close> and
  \<open>args\<close> as resolved and the object known to be an instance of \<open>origin\<close>.
\<close>

definition check_parameterized ::
  "world \<Rightarrow> collaborators \<Rightarrow> state \<Rightarrow> ref \<Rightarrow> ref \<Rightarrow> ref \<Rightarrow> ref list \<Rightarrow> Options \<Rightarrow> nat \<Rightarrow> bool
     \<Rightarrow> string \<Rightarrow> bool \<Rightarrow> CheckResult outcome" where
  "check_parameterized w c s obj type_hint origin args options parents raise_on_error context
     obj_is_immutable =
     (if args = [] \<and> isinstance w obj type_hint = Some True then
        return_valid w s type_hint obj options obj_is_immutable
      else
        (case extend_parents s parents (py_id obj, type_hint, context) of
           (s2, new_parents) \<Rightarrow>
             (case dispatch w origin of
                Inl e \<Rightarrow> Some (s2, Inl e)
              | Inr (Some k) \<Rightarrow>
                  after_matcher w type_hint obj options raise_on_error
                    (run_matcher c k s2 obj type_hint origin args options new_parents
                       raise_on_error)
              | Inr None \<Rightarrow>
                  fallback w c s2 obj type_hint origin args options parents raise_on_error
                    obj_is_immutable)))"

text \<open>
  \<^verbatim>\<open>_check_generic(obj, type_hint, origin, args, options, parents, raise_on_error,
  context)\<close>, lines 64 to 135 and then the rest. (An Isabelle name cannot start with an
  underscore.)
\<close>

definition check_generic ::
  "world \<Rightarrow> collaborators \<Rightarrow> state \<Rightarrow> ref \<Rightarrow> ref \<Rightarrow> ref \<Rightarrow> ref list \<Rightarrow> Options \<Rightarrow> nat \<Rightarrow> bool
     \<Rightarrow> string \<Rightarrow> CheckResult outcome" where
  "check_generic w c s obj type_hint origin0 args0 options parents raise_on_error context =
     (case valid_in_cache s type_hint obj of
        Some cached_result \<Rightarrow>
          (if cached_result \<or> \<not> raise_on_error
           then Some (s, Inr \<lparr>valid = cached_result, immutable = IS_IMMUTABLE\<rparr>)
           else Some (s, Inl (TypeCheckedTypeError CachedNotInstanceOfTypeHint
                                TYPE_HINT_MISMATCH)))
      | None \<Rightarrow>
          (let obj_is_immutable = is_immutable w obj
           in if non_runtime_protocol w type_hint then
                (if raise_on_error
                 then Some (s, Inl (TypeCheckedTypeError ProtocolNotRuntimeCheckable
                                      NON_RUNTIME_CHECKABLE_PROTOCOL))
                 else Some (s, Inr \<lparr>valid = NOT_VALID, immutable = obj_is_immutable\<rparr>))
              else
                (case implied_origin w type_hint origin0 args0 of
                   Inl e \<Rightarrow> Some (s, Inl e)
                 | Inr (origin, args) \<Rightarrow>
                     (if origin = PyNone then
                        (case isinstance w obj type_hint of
                           None \<Rightarrow> Some (s, Inl PyTypeError)
                         | Some True \<Rightarrow> return_valid w s type_hint obj options obj_is_immutable
                         | Some False \<Rightarrow>
                             (if raise_on_error
                              then Some (s, Inl (TypeCheckedTypeError NotInstanceOfHint
                                                   VALIDATION_FAILED))
                              else Some (s, Inr \<lparr>valid = NOT_VALID,
                                                 immutable = obj_is_immutable\<rparr>)))
                      else
                        (case isinstance w obj origin of
                           None \<Rightarrow>
                             (if origin \<in> {Required, NotRequired, ReadOnly, Never}
                              then Some (s, Inl (TypeCheckedTypeError
                                                   OriginInvalidOutsideTypedDict
                                                   VALIDATION_FAILED))
                              else Some (s, Inl (TypeCheckedTypeError
                                                   OriginInvalidForIsinstance
                                                   VALIDATION_FAILED)))
                         | Some False \<Rightarrow>
                             (if raise_on_error then
                                (if has_name w origin
                                 then Some (s, Inl (TypeCheckedTypeError NotInstanceOfOrigin
                                                      VALIDATION_FAILED))
                                 else Some (s, Inl PyAttributeError))
                              else Some (s, Inr \<lparr>valid = NOT_VALID,
                                                 immutable = obj_is_immutable\<rparr>))
                         | Some True \<Rightarrow>
                             check_parameterized w c s obj type_hint origin args options
                               parents raise_on_error context obj_is_immutable)))))"

section \<open>Properties of the collaborators\<close>

text \<open>
  The matchers and the entry point are parameters, so what a claim needs of them is a
  hypothesis. \<open>collaborators_preserve Q c\<close>: no call of a collaborator leads from a cache
  that satisfies \<open>Q\<close> to one that does not.
\<close>

definition entry_preserves :: "((CacheKey \<Rightarrow> bool option) \<Rightarrow> bool) \<Rightarrow> entry_point \<Rightarrow> bool" where
  "entry_preserves Q chk \<longleftrightarrow>
     (\<forall>s item hint options parents raise_on_error context s' res.
        Q (cache s) \<longrightarrow>
        chk s item hint options parents raise_on_error context = Some (s', res) \<longrightarrow>
        Q (cache s'))"

definition collaborators_preserve ::
  "((CacheKey \<Rightarrow> bool option) \<Rightarrow> bool) \<Rightarrow> collaborators \<Rightarrow> bool" where
  "collaborators_preserve Q c \<longleftrightarrow>
     entry_preserves Q (check_instance_of_typehint c)
     \<and> (\<forall>k s obj type_hint origin args options parents raise_on_error s' res.
          Q (cache s) \<longrightarrow>
          run_matcher c k s obj type_hint origin args options parents raise_on_error
            = Some (s', res) \<longrightarrow>
          Q (cache s'))"

text \<open>
  \<open>own_write Q w type_hint obj options s' r\<close>: the cache of \<open>s'\<close> is a cache that
  satisfies \<open>Q\<close> plus the verdict \<open>True\<close> for (type hint, object), the type of the object
  is not excluded from caching, and the call returned valid and immutable.
\<close>

definition own_write ::
  "((CacheKey \<Rightarrow> bool option) \<Rightarrow> bool) \<Rightarrow> world \<Rightarrow> ref \<Rightarrow> ref \<Rightarrow> Options \<Rightarrow> state
     \<Rightarrow> error + CheckResult \<Rightarrow> bool" where
  "own_write Q w type_hint obj options s' r \<longleftrightarrow>
     r = Inr \<lparr>valid = True, immutable = True\<rparr>
     \<and> type_of w obj \<notin> noncachable_types options
     \<and> (\<exists>c0. Q c0 \<and> cache s' = c0(CacheKey_init type_hint obj \<mapsto> True))"

text \<open>
  \<open>frame s s'\<close>: every set object that exists in \<open>s\<close> has the same elements in \<open>s'\<close>.
  \<open>frame_except p s s'\<close> lets the set at \<open>p\<close> change. A matcher may update the set it is
  handed; the entry point updates none.
\<close>

definition frame :: "state \<Rightarrow> state \<Rightarrow> bool" where
  "frame s s' \<longleftrightarrow> next_set s \<le> next_set s' \<and> (\<forall>a < next_set s. sets s' a = sets s a)"

definition frame_except :: "nat \<Rightarrow> state \<Rightarrow> state \<Rightarrow> bool" where
  "frame_except p s s' \<longleftrightarrow>
     next_set s \<le> next_set s' \<and> (\<forall>a < next_set s. a \<noteq> p \<longrightarrow> sets s' a = sets s a)"

definition entry_frame :: "entry_point \<Rightarrow> bool" where
  "entry_frame chk \<longleftrightarrow>
     (\<forall>s item hint options parents raise_on_error context s' res.
        chk s item hint options parents raise_on_error context = Some (s', res) \<longrightarrow> frame s s')"

definition collaborators_frame :: "collaborators \<Rightarrow> bool" where
  "collaborators_frame c \<longleftrightarrow>
     entry_frame (check_instance_of_typehint c)
     \<and> (\<forall>k s obj type_hint origin args options parents raise_on_error s' res.
          run_matcher c k s obj type_hint origin args options parents raise_on_error
            = Some (s', res) \<longrightarrow>
          frame_except parents s s')"


text \<open>
  What the fallback inspects (spec 4.4, step 9): the recorded type arguments against the
  arguments of the hint, position by position; or else every element of an iterable object
  against the first argument.
\<close>

definition nested_checks :: "world \<Rightarrow> ref \<Rightarrow> ref \<Rightarrow> ref list \<Rightarrow> (ref \<times> ref) list \<times> string" where
  "nested_checks w obj origin args =
     (case recorded_parameters w obj origin args of
        Some obj_args \<Rightarrow> (zip obj_args args, ''generic_parameter'')
      | None \<Rightarrow>
          (case (iter_items w obj, args) of
             (Some items, hint # _) \<Rightarrow> (map (\<lambda>item. (item, hint)) items, ''generic_item'')
           | _ \<Rightarrow> ([], ''generic_item'')))"



section \<open>The recursive check\<close>

text \<open>
  Modelled from the spec: what the entry point and the structural matchers, whose code is
  not part of the sources at hand, read of a hint and of an object. \<open>get_origin\<close> and
  \<open>get_args\<close> resolve a hint (spec 4.4: the dispatcher gets the hint's origin and
  arguments). \<open>contents k obj args\<close> is what the matcher \<open>k\<close> validates in \<open>obj\<close> (spec
  4.5): \<open>None\<close> when the object has not the shape, or else the contained elements, keys,
  values or parameters, each with the entry of \<open>args\<close> it is validated against.
  \<open>matcher_context\<close> is the context label of those nested checks.
\<close>

record typing_model =
  get_origin :: "ref \<Rightarrow> ref"
  get_args :: "ref \<Rightarrow> ref list"
  contents :: "matcher_kind \<Rightarrow> ref \<Rightarrow> ref list \<Rightarrow> (ref \<times> ref) list option"
  matcher_context :: string

text \<open>
  Modelled from the spec: the loop of a structural matcher (spec 4.5). Every nested check
  goes through the entry point with the parents set that the matcher was handed; the
  immutable flag is the conjunction of the container's classification and the flags of the
  inspected elements.
\<close>

fun check_all ::
  "entry_point \<Rightarrow> state \<Rightarrow> (ref \<times> ref) list \<Rightarrow> Options \<Rightarrow> nat \<Rightarrow> bool \<Rightarrow> string \<Rightarrow> bool
     \<Rightarrow> CheckResult outcome" where
  "check_all chk s [] options parents raise_on_error context imm =
     Some (s, Inr \<lparr>valid = True, immutable = imm\<rparr>)"
| "check_all chk s ((element, hint) # rest) options parents raise_on_error context imm =
     (case chk s element hint options parents raise_on_error context of
        None \<Rightarrow> None
      | Some (s', Inl e) \<Rightarrow> Some (s', Inl e)
      | Some (s', Inr r) \<Rightarrow>
          (if valid r
           then check_all chk s' rest options parents raise_on_error context
                  (imm \<and> immutable r)
           else Some (s', Inr \<lparr>valid = False, immutable = (imm \<and> immutable r)\<rparr>)))"

text \<open>
  Modelled from the spec: a structural matcher (spec 4.5) validates the shape and then the
  contents. The callable matcher gets neither options nor parents in the source, so it makes
  no nested check.
\<close>

definition matcher_model :: "world \<Rightarrow> typing_model \<Rightarrow> entry_point \<Rightarrow> matcher_kind \<Rightarrow> matcher" where
  "matcher_model w m chk k s obj type_hint origin args options parents raise_on_error =
     (case contents m k obj args of
        None \<Rightarrow> Some (s, Inr \<lparr>valid = False, immutable = is_immutable w obj\<rparr>)
      | Some pairs \<Rightarrow>
          check_all chk s pairs options parents raise_on_error (matcher_context m)
            (is_immutable w obj))"

definition callable_model :: "world \<Rightarrow> typing_model \<Rightarrow> callable_matcher" where
  "callable_model w m s obj type_hint origin args raise_on_error =
     Some (s, Inr \<lparr>valid = (contents m CallableMatcher obj args \<noteq> None),
                   immutable = is_immutable w obj\<rparr>)"

definition collaborators_model :: "world \<Rightarrow> typing_model \<Rightarrow> entry_point \<Rightarrow> collaborators" where
  "collaborators_model w m chk =
     \<lparr>check_collections_abc_mapping = matcher_model w m chk MappingMatcher,
      check_collections_abc_set = matcher_model w m chk SetMatcher,
      check_collections_abc_sequence = matcher_model w m chk SequenceMatcher,
      check_collections_abc_collection = matcher_model w m chk CollectionMatcher,
      check_collections_abc_iterable = matcher_model w m chk IterableMatcher,
      check_collections_abc_callable = callable_model w m,
      check_instance_of_typehint = chk\<rparr>"

text \<open>
  Modelled from the spec: the entry point \<^verbatim>\<open>_check_instance_of_typehint\<close>. Spec 2 gives
  its control flow: cache check, then the cycle guard (check and insert), then the generic
  dispatcher, which is \<open>check_generic\<close> above. Spec 4.3 gives the guard: a token of
  (identity of the object, type hint, context label); if it is in the parents set of the
  caller the check returns valid without descending, and otherwise a copy of that set with
  the token added goes into the descent. The spec does not say what immutable flag the
  guard returns; the classification of the object is taken. The first argument is the
  number of nested descents that are still allowed: with none left, the model does not
  return.
\<close>

fun entry_model :: "nat \<Rightarrow> world \<Rightarrow> typing_model \<Rightarrow> entry_point" where
  "entry_model 0 w m s obj type_hint options parents raise_on_error context = None"
| "entry_model (Suc n) w m s obj type_hint options parents raise_on_error context =
     (if valid_in_cache s type_hint obj \<noteq> None then
        check_generic w (collaborators_model w m (entry_model n w m)) s obj type_hint
          (get_origin m type_hint) (get_args m type_hint) options parents raise_on_error
          context
      else if (py_id obj, type_hint, context) \<in> sets s parents then
        Some (s, Inr \<lparr>valid = True, immutable = is_immutable w obj\<rparr>)
      else
        (case extend_parents s parents (py_id obj, type_hint, context) of
           (s1, guarded) \<Rightarrow>
             check_generic w (collaborators_model w m (entry_model n w m)) s1 obj type_hint
               (get_origin m type_hint) (get_args m type_hint) options guarded
               raise_on_error context))"

text \<open>
  The objects and hints that a check can get to: finitely many, and closed under what the
  fallback and the matchers descend into. \<open>AnyT\<close> and \<open>EllipsisV\<close> are the arguments that
  lines 92, 96 and 100 make up.
\<close>

definition closed_universe :: "world \<Rightarrow> typing_model \<Rightarrow> ref set \<Rightarrow> ref set \<Rightarrow> bool" where
  "closed_universe w m objs hints \<longleftrightarrow>
     finite objs \<and> finite hints \<and> AnyT \<in> hints \<and> EllipsisV \<in> hints
     \<and> (\<forall>h \<in> hints. set (get_args m h) \<subseteq> hints)
     \<and> (\<forall>obj \<in> objs.
          (\<forall>items. iter_items w obj = Some items \<longrightarrow> set items \<subseteq> objs)
        \<and> (\<forall>oc xs. orig_class w obj = Some oc \<longrightarrow> dunder_args w oc = Some xs \<longrightarrow>
              set xs \<subseteq> objs)
        \<and> (\<forall>xs. dunder_args w (type_of w obj) = Some xs \<longrightarrow> set xs \<subseteq> objs)
        \<and> (\<forall>k args pairs. contents m k obj args = Some pairs \<longrightarrow> set args \<subseteq> hints \<longrightarrow>
              set pairs \<subseteq> objs \<times> hints))"

text \<open>The tokens that the guard can see in such a universe.\<close>

definition tokens :: "ref set \<Rightarrow> ref set \<Rightarrow> string set \<Rightarrow> ValidationState set" where
  "tokens objs hints labels = (\<lambda>(obj, hint, label). (py_id obj, hint, label)) ` (objs \<times> hints \<times> labels)"

definition labels_of :: "typing_model \<Rightarrow> string \<Rightarrow> string set" where
  "labels_of m context = {context, matcher_context m, ''generic_parameter'', ''generic_item''}"

text \<open>
  \<open>frame_stable G\<close>: a property of states that only depends on the sets that exist.
  \<open>entry_returns_on G D chk ...\<close>: the entry point returns for every state in \<open>G\<close> and
  every pair of \<open>D\<close>.
\<close>

definition frame_stable :: "(state \<Rightarrow> bool) \<Rightarrow> bool" where
  "frame_stable G \<longleftrightarrow> (\<forall>s s'. G s \<longrightarrow> frame s s' \<longrightarrow> G s')"

definition entry_returns_on ::
  "(state \<Rightarrow> bool) \<Rightarrow> (ref \<times> ref) set \<Rightarrow> entry_point \<Rightarrow> Options \<Rightarrow> nat \<Rightarrow> bool \<Rightarrow> string \<Rightarrow> bool"
  where
  "entry_returns_on G D chk options parents raise_on_error context \<longleftrightarrow>
     (\<forall>s item hint. G s \<longrightarrow> (item, hint) \<in> D \<longrightarrow>
        chk s item hint options parents raise_on_error context \<noteq> None)"

section \<open>A small runtime for the examples\<close>

text \<open>
  \<open>Addr 1\<close> is an immutable object, \<open>Addr 7\<close> an iterable object whose only item is
  \<open>Addr 9\<close>, \<open>Addr 8\<close> one whose only item is \<open>Addr 1\<close>, \<open>Addr 2\<close> a parameterized hint with origin \<open>Addr 5\<close> (a user-defined generic
  class) and argument \<open>Addr 6\<close>, \<open>Addr 4\<close> a mapping class, \<open>Addr 3\<close> a class without
  instances, \<open>Addr 20\<close> a Protocol class that is not runtime-checkable. The four typing
  markers reject \<^verbatim>\<open>isinstance\<close>. The caller's parents set is the empty set at address 0.
\<close>

definition example_world :: world where
  "example_world =
     \<lparr>is_immutable = (\<lambda>x. x = Addr 1),
      type_of = (\<lambda>x. Addr 10),
      mro = (\<lambda>x. if x = Addr 20 then Some [Addr 20, Protocol] else None),
      is_runtime_protocol = (\<lambda>x. False),
      is_class = (\<lambda>x. x = Addr 20),
      isinstance = (\<lambda>x t. if t \<in> {Required, NotRequired, ReadOnly, Never} then None
                           else Some (t \<noteq> Addr 3)),
      issubclass = (\<lambda>t abc. Some (t = Addr 4 \<and> abc \<in> {Mapping, Collection, Iterable})),
      truthy = (\<lambda>x. True),
      has_name = (\<lambda>x. True),
      orig_class = (\<lambda>x. None),
      dunder_args = (\<lambda>x. None),
      dunder_origin = (\<lambda>x. None),
      iter_items = (\<lambda>x. if x = Addr 7 then Some [Addr 9]
                         else if x = Addr 8 then Some [Addr 1] else None)\<rparr>"

definition all_immutable_world :: world where
  "all_immutable_world = example_world\<lparr>is_immutable := (\<lambda>x. True)\<rparr>"

definition example_state :: state where
  "example_state = \<lparr>cache = (\<lambda>k. None), sets = (\<lambda>a. {}), next_set = 1\<rparr>"

definition cached_invalid_state :: state where
  "cached_invalid_state = \<lparr>cache = (\<lambda>k. Some False), sets = (\<lambda>a. {}), next_set = 1\<rparr>"

definition example_options :: Options where
  "example_options = \<lparr>noncachable_types = {}\<rparr>"

text \<open>
  Collaborators that leave the state as it is: every matcher reports valid and mutable, the
  entry point reports immutable, and valid for every item but \<open>Addr 9\<close>.
\<close>

definition example_matcher :: matcher where
  "example_matcher s obj type_hint origin args options parents raise_on_error =
     Some (s, Inr \<lparr>valid = True, immutable = False\<rparr>)"

definition example_collaborators :: collaborators where
  "example_collaborators =
     \<lparr>check_collections_abc_mapping = example_matcher,
      check_collections_abc_set = example_matcher,
      check_collections_abc_sequence = example_matcher,
      check_collections_abc_collection = example_matcher,
      check_collections_abc_iterable = example_matcher,
      check_collections_abc_callable =
        (\<lambda>s obj type_hint origin args raise_on_error.
           Some (s, Inr \<lparr>valid = True, immutable = False\<rparr>)),
      check_instance_of_typehint =
        (\<lambda>s item hint options parents raise_on_error context.
           Some (s, Inr \<lparr>valid = (item \<noteq> Addr 9), immutable = True\<rparr>))\<rparr>"

text \<open>
  A list that contains itself: \<open>Addr 30\<close> is an instance of the sequence class \<open>Addr 32\<close>
  and its only item is \<open>Addr 30\<close>. The hint \<open>Addr 31\<close> has the origin \<open>Addr 32\<close> and
  itself as its argument, as a recursive alias has. A matcher pairs every item with the
  first argument.
\<close>

definition cyclic_world :: world where
  "cyclic_world =
     \<lparr>is_immutable = (\<lambda>x. False),
      type_of = (\<lambda>x. Addr 32),
      mro = (\<lambda>x. None),
      is_runtime_protocol = (\<lambda>x. False),
      is_class = (\<lambda>x. x = Addr 32),
      isinstance = (\<lambda>x t. Some (x = Addr 30 \<and> t = Addr 32)),
      issubclass = (\<lambda>t abc. Some (t = Addr 32 \<and> abc \<in> {Sequence, Collection, Iterable})),
      truthy = (\<lambda>x. True),
      has_name = (\<lambda>x. True),
      orig_class = (\<lambda>x. None),
      dunder_args = (\<lambda>x. None),
      dunder_origin = (\<lambda>x. None),
      iter_items = (\<lambda>x. if x = Addr 30 then Some [Addr 30] else None)\<rparr>"

definition cyclic_typing :: typing_model where
  "cyclic_typing =
     \<lparr>get_origin = (\<lambda>h. if h = Addr 31 then Addr 32 else PyNone),
      get_args = (\<lambda>h. if h = Addr 31 then [Addr 31] else []),
      contents = (\<lambda>k obj args.
         case iter_items cyclic_world obj of
           None \<Rightarrow> None
         | Some items \<Rightarrow>
             (case args of [] \<Rightarrow> Some [] | h # _ \<Rightarrow> Some (map (\<lambda>item. (item, h)) items))),
      matcher_context = ''element''\<rparr>"

section \<open>Shared lemmas\<close>

lemma py_id_eq_iff: "py_id a = py_id b \<longleftrightarrow> a = b"
  by (cases a; cases b; simp)

lemma implied_origin_resolved:
  "origin \<noteq> PyNone \<Longrightarrow> implied_origin w type_hint origin args = Inr (origin, args)"
  by (simp add: implied_origin_def)

lemma check_generic_reaches_parameterized:
  assumes "valid_in_cache s type_hint obj = None"
    and "\<not> non_runtime_protocol w type_hint"
    and "implied_origin w type_hint origin0 args0 = Inr (origin, args)"
    and "origin \<noteq> PyNone"
    and "isinstance w obj origin = Some True"
  shows "check_generic w c s obj type_hint origin0 args0 options parents raise_on_error context =
           check_parameterized w c s obj type_hint origin args options parents raise_on_error
             context (is_immutable w obj)"
  using assms by (simp add: check_generic_def)

lemma check_parameterized_unfold:
  assumes "\<not> (args = [] \<and> isinstance w obj type_hint = Some True)"
  shows "check_parameterized w c s obj type_hint origin args options parents raise_on_error
           context imm =
         (case dispatch w origin of
            Inl e \<Rightarrow>
              Some (fst (extend_parents s parents (py_id obj, type_hint, context)), Inl e)
          | Inr (Some k) \<Rightarrow>
              after_matcher w type_hint obj options raise_on_error
                (run_matcher c k (fst (extend_parents s parents (py_id obj, type_hint, context)))
                   obj type_hint origin args options
                   (snd (extend_parents s parents (py_id obj, type_hint, context)))
                   raise_on_error)
          | Inr None \<Rightarrow>
              fallback w c (fst (extend_parents s parents (py_id obj, type_hint, context)))
                obj type_hint origin args options parents raise_on_error imm)"
  using assms by (auto simp: check_parameterized_def split_def)




lemma fallback_vacuous:
  assumes "orig_class w obj = None"
    and "\<forall>xs. dunder_args w (type_of w obj) = Some xs \<longrightarrow>
           dunder_origin w (type_of w obj) \<noteq> Some origin \<or> length xs \<noteq> length args"
    and "iter_items w obj = None"
    and "origin \<noteq> PyNone"
  shows "fallback w c s obj type_hint origin args options parents raise_on_error imm =
           return_valid w s type_hint obj options imm"
proof -
  from assms(1,2,4) have "recorded_parameters w obj origin args = None"
    by (auto simp: recorded_parameters_def Let_def split: option.splits)
  with assms(3) show ?thesis by (simp add: fallback_def)
qed

lemma return_valid_write:
  assumes "Q (cache s)"
    and "return_valid w s type_hint obj options imm = Some (s', r)"
  shows "Q (cache s') \<or> (own_write Q w type_hint obj options s' r \<and> imm)"
  using assms
  by (auto simp: return_valid_def add_cache_entry_def own_write_def IS_VALID_def
      split: if_splits)

lemma check_each_preserves:
  assumes "entry_preserves Q chk"
    and "Q (cache s)"
    and "check_each chk s pairs options parents raise_on_error context err acc = Some (s', r)"
  shows "Q (cache s') \<and> (\<forall>b. r = Inr (Completed b) \<longrightarrow> b \<longrightarrow> acc)"
  using assms(2,3)
proof (induction pairs arbitrary: s acc)
  case Nil
  then show ?case by auto
next
  case (Cons x pairs)
  obtain item hint where x: "x = (item, hint)" by (cases x)
  from Cons.prems(2) x obtain s1 res where
    call: "chk s item hint options parents raise_on_error context = Some (s1, res)"
    by (auto split: option.splits)
  from assms(1) Cons.prems(1) call have q1: "Q (cache s1)"
    unfolding entry_preserves_def by blast
  show ?case
  proof (cases res)
    case (Inl e)
    with Cons.prems(2) x call q1 show ?thesis by auto
  next
    case (Inr cr)
    show ?thesis
    proof (cases "valid cr")
      case False
      with Cons.prems(2) x call q1 Inr show ?thesis by (auto split: if_splits)
    next
      case True
      with Cons.prems(2) x call Inr have
        "check_each chk s1 pairs options parents raise_on_error context err
           (acc \<and> immutable cr) = Some (s', r)" by simp
      from Cons.IH [OF q1 this] show ?thesis by auto
    qed
  qed
qed

lemma finish_loop_write:
  assumes "entry_preserves Q chk"
    and "Q (cache s)"
    and "finish_loop w type_hint obj options
           (check_each chk s pairs options parents raise_on_error context err acc) = Some (s', r)"
  shows "Q (cache s') \<or> (own_write Q w type_hint obj options s' r \<and> acc)"
proof (cases "check_each chk s pairs options parents raise_on_error context err acc")
  case None
  with assms(3) show ?thesis by (simp add: finish_loop_def)
next
  case (Some a)
  obtain s1 r1 where a: "a = (s1, r1)" by (cases a)
  from Some a have ce:
    "check_each chk s pairs options parents raise_on_error context err acc = Some (s1, r1)"
    by simp
  from check_each_preserves [OF assms(1) assms(2) ce]
  have q1: "Q (cache s1)" and acc: "\<forall>b. r1 = Inr (Completed b) \<longrightarrow> b \<longrightarrow> acc"
    by blast+
  show ?thesis
  proof (cases r1)
    case (Inl e)
    with assms(3) Some a q1 show ?thesis by (simp add: finish_loop_def)
  next
    case (Inr ex)
    show ?thesis
    proof (cases ex)
      case (Returned cr)
      with assms(3) Some a q1 Inr show ?thesis by (simp add: finish_loop_def)
    next
      case (Completed b)
      with assms(3) Some a Inr have
        rv: "return_valid w s1 type_hint obj options b = Some (s', r)"
        by (simp add: finish_loop_def)
      from return_valid_write [where Q = Q, OF q1 rv] acc Inr Completed show ?thesis by auto
    qed
  qed
qed

lemma fallback_write:
  assumes "entry_preserves Q (check_instance_of_typehint c)"
    and "Q (cache s)"
    and "fallback w c s obj type_hint origin args options parents raise_on_error imm
           = Some (s', r)"
  shows "Q (cache s') \<or> (own_write Q w type_hint obj options s' r \<and> imm)"
proof (cases "recorded_parameters w obj origin args")
  case (Some obj_args)
  with assms(3) have fl: "finish_loop w type_hint obj options
      (check_each (check_instance_of_typehint c) s (zip obj_args args) options parents
         raise_on_error ''generic_parameter''
         (TypeCheckedTypeError GenericParameterMismatch VALIDATION_FAILED) imm) = Some (s', r)"
    by (simp add: fallback_def)
  show ?thesis
    by (rule finish_loop_write [where Q = Q, OF assms(1) assms(2) fl])
next
  case None
  show ?thesis
  proof (cases "iter_items w obj")
    case n: None
    with None assms(3) have "return_valid w s type_hint obj options imm = Some (s', r)"
      by (simp add: fallback_def)
    then show ?thesis by (rule return_valid_write [where Q = Q, OF assms(2)])
  next
    case (Some items)
    show ?thesis
    proof (cases args)
      case Nil
      show ?thesis
      proof (cases "items = []")
        case True
        with Nil None Some assms(3) have
          "return_valid w s type_hint obj options imm = Some (s', r)"
          by (simp add: fallback_def)
        then show ?thesis by (rule return_valid_write [where Q = Q, OF assms(2)])
      next
        case False
        with Nil None Some assms(2,3) show ?thesis by (auto simp: fallback_def)
      qed
    next
      case (Cons hint rest)
      with None Some assms(3) have fl: "finish_loop w type_hint obj options
          (check_each (check_instance_of_typehint c) s (map (\<lambda>item. (item, hint)) items)
             options parents raise_on_error ''generic_item''
             (TypeCheckedTypeError NotInstanceOfGenericTypeHint TYPE_HINT_MISMATCH) imm)
          = Some (s', r)"
        by (simp add: fallback_def)
      show ?thesis
        by (rule finish_loop_write [where Q = Q, OF assms(1) assms(2) fl])
    qed
  qed
qed

lemma after_matcher_write:
  assumes "Q (cache s1)"
    and "after_matcher w type_hint obj options raise_on_error (Some (s1, res)) = Some (s', r)"
  shows "Q (cache s') \<or>
         (own_write Q w type_hint obj options s' r \<and> res = r)"
  using assms
  by (cases res)
    (auto simp: after_matcher_def add_cache_entry_def own_write_def Let_def split: if_splits)

lemma extend_parents_cache:
  "cache (fst (extend_parents s parents token)) = cache s"
  by (simp add: extend_parents_def set_copy_def set_add_def)

lemma check_parameterized_write:
  assumes "collaborators_preserve Q c"
    and "Q (cache s)"
    and "check_parameterized w c s obj type_hint origin args options parents raise_on_error
           context imm = Some (s', r)"
  shows "Q (cache s') \<or>
         (own_write Q w type_hint obj options s' r
          \<and> (imm \<or> (\<exists>k s1 s2 p1. run_matcher c k s1 obj type_hint origin args options p1
                                    raise_on_error = Some (s2, r))))"
proof (cases "args = [] \<and> isinstance w obj type_hint = Some True")
  case True
  with assms(3) have "return_valid w s type_hint obj options imm = Some (s', r)"
    by (simp add: check_parameterized_def)
  from return_valid_write [where Q = Q, OF assms(2) this] show ?thesis by blast
next
  case False
  define s2 where "s2 = fst (extend_parents s parents (py_id obj, type_hint, context))"
  define np where "np = snd (extend_parents s parents (py_id obj, type_hint, context))"
  have q2: "Q (cache s2)" using assms(2) by (simp add: s2_def extend_parents_cache)
  from assms(1) have ep: "entry_preserves Q (check_instance_of_typehint c)"
    by (simp add: collaborators_preserve_def)
  show ?thesis
  proof (cases "dispatch w origin")
    case (Inl e)
    with assms(3) q2 show ?thesis
      by (auto simp: check_parameterized_unfold [OF False] s2_def)
  next
    case (Inr ko)
    show ?thesis
    proof (cases ko)
      case None
      with Inr assms(3) have
        "fallback w c s2 obj type_hint origin args options parents raise_on_error imm
           = Some (s', r)"
        by (simp add: check_parameterized_unfold [OF False] s2_def)
      from fallback_write [where Q = Q, OF ep q2 this] show ?thesis by blast
    next
      case (Some k)
      with Inr assms(3) have am:
        "after_matcher w type_hint obj options raise_on_error
           (run_matcher c k s2 obj type_hint origin args options np raise_on_error)
           = Some (s', r)"
        by (simp add: check_parameterized_unfold [OF False] s2_def np_def)
      then obtain s3 res where run:
        "run_matcher c k s2 obj type_hint origin args options np raise_on_error
           = Some (s3, res)"
        by (cases "run_matcher c k s2 obj type_hint origin args options np raise_on_error")
          (auto simp: after_matcher_def)
      from assms(1) q2 run have q3: "Q (cache s3)"
        unfolding collaborators_preserve_def by blast
      from am run have "after_matcher w type_hint obj options raise_on_error
          (Some (s3, res)) = Some (s', r)" by simp
      from after_matcher_write [where Q = Q, OF q3 this] run show ?thesis by blast
    qed
  qed
qed

lemma frame_refl: "frame s s"
  by (simp add: frame_def)

lemma frame_trans: "frame s1 s2 \<Longrightarrow> frame s2 s3 \<Longrightarrow> frame s1 s3"
  by (auto simp: frame_def)

lemma extend_parents_fresh:
  "snd (extend_parents s parents token) = next_set s"
  "next_set (fst (extend_parents s parents token)) = Suc (next_set s)"
  "sets (fst (extend_parents s parents token)) (next_set s) = insert token (sets s parents)"
  "a \<noteq> next_set s \<Longrightarrow> sets (fst (extend_parents s parents token)) a = sets s a"
  by (simp_all add: extend_parents_def set_copy_def set_add_def)

lemma extend_parents_frame: "frame s (fst (extend_parents s parents token))"
  by (simp add: frame_def extend_parents_fresh)

lemma add_cache_entry_sets:
  "sets (add_cache_entry w type_hint obj v nc s) = sets s"
  "next_set (add_cache_entry w type_hint obj v nc s) = next_set s"
  by (simp_all add: add_cache_entry_def)

lemma return_valid_frame:
  "return_valid w s type_hint obj options imm = Some (s', r) \<Longrightarrow> frame s s'"
  by (auto simp: return_valid_def frame_def add_cache_entry_sets split: if_splits)

lemma check_each_frame:
  assumes "entry_frame chk"
    and "check_each chk s pairs options parents raise_on_error context err acc = Some (s', r)"
  shows "frame s s'"
  using assms(2)
proof (induction pairs arbitrary: s acc)
  case Nil
  then show ?case by (simp add: frame_refl)
next
  case (Cons x pairs)
  obtain item hint where x: "x = (item, hint)" by (cases x)
  from Cons.prems x obtain s1 res where
    call: "chk s item hint options parents raise_on_error context = Some (s1, res)"
    by (auto split: option.splits)
  from assms(1) call have f1: "frame s s1" unfolding entry_frame_def by blast
  show ?case
  proof (cases res)
    case (Inl e)
    with Cons.prems x call f1 show ?thesis by auto
  next
    case (Inr cr)
    show ?thesis
    proof (cases "valid cr")
      case False
      with Cons.prems x call f1 Inr show ?thesis by (auto split: if_splits)
    next
      case True
      with Cons.prems x call Inr have
        "check_each chk s1 pairs options parents raise_on_error context err
           (acc \<and> immutable cr) = Some (s', r)" by simp
      from frame_trans [OF f1 Cons.IH [OF this]] show ?thesis .
    qed
  qed
qed

lemma finish_loop_frame:
  assumes "entry_frame chk"
    and "finish_loop w type_hint obj options
           (check_each chk s pairs options parents raise_on_error context err acc) = Some (s', r)"
  shows "frame s s'"
proof (cases "check_each chk s pairs options parents raise_on_error context err acc")
  case None
  with assms(2) show ?thesis by (simp add: finish_loop_def)
next
  case (Some a)
  obtain s1 r1 where a: "a = (s1, r1)" by (cases a)
  from Some a have ce:
    "check_each chk s pairs options parents raise_on_error context err acc = Some (s1, r1)"
    by simp
  from check_each_frame [OF assms(1) ce] have f1: "frame s s1" .
  show ?thesis
  proof (cases r1)
    case (Inl e)
    with assms(2) Some a f1 show ?thesis by (simp add: finish_loop_def)
  next
    case (Inr ex)
    show ?thesis
    proof (cases ex)
      case (Returned cr)
      with assms(2) Some a f1 Inr show ?thesis by (simp add: finish_loop_def)
    next
      case (Completed b)
      with assms(2) Some a Inr have
        "return_valid w s1 type_hint obj options b = Some (s', r)"
        by (simp add: finish_loop_def)
      from frame_trans [OF f1 return_valid_frame [OF this]] show ?thesis .
    qed
  qed
qed

lemma fallback_frame:
  assumes "entry_frame (check_instance_of_typehint c)"
    and "fallback w c s obj type_hint origin args options parents raise_on_error imm
           = Some (s', r)"
  shows "frame s s'"
proof (cases "recorded_parameters w obj origin args")
  case (Some obj_args)
  with assms(2) have fl: "finish_loop w type_hint obj options
      (check_each (check_instance_of_typehint c) s (zip obj_args args) options parents
         raise_on_error ''generic_parameter''
         (TypeCheckedTypeError GenericParameterMismatch VALIDATION_FAILED) imm) = Some (s', r)"
    by (simp add: fallback_def)
  show ?thesis by (rule finish_loop_frame [OF assms(1) fl])
next
  case None
  show ?thesis
  proof (cases "iter_items w obj")
    case n: None
    with None assms(2) have "return_valid w s type_hint obj options imm = Some (s', r)"
      by (simp add: fallback_def)
    then show ?thesis by (rule return_valid_frame)
  next
    case (Some items)
    show ?thesis
    proof (cases args)
      case Nil
      show ?thesis
      proof (cases "items = []")
        case True
        with Nil None Some assms(2) have
          "return_valid w s type_hint obj options imm = Some (s', r)"
          by (simp add: fallback_def)
        then show ?thesis by (rule return_valid_frame)
      next
        case False
        with Nil None Some assms(2) show ?thesis by (auto simp: fallback_def frame_refl)
      qed
    next
      case (Cons hint rest)
      with None Some assms(2) have fl: "finish_loop w type_hint obj options
          (check_each (check_instance_of_typehint c) s (map (\<lambda>item. (item, hint)) items)
             options parents raise_on_error ''generic_item''
             (TypeCheckedTypeError NotInstanceOfGenericTypeHint TYPE_HINT_MISMATCH) imm)
          = Some (s', r)"
        by (simp add: fallback_def)
      show ?thesis by (rule finish_loop_frame [OF assms(1) fl])
    qed
  qed
qed

lemma after_matcher_frame:
  assumes "after_matcher w type_hint obj options raise_on_error (Some (s1, res)) = Some (s', r)"
  shows "sets s' = sets s1 \<and> next_set s' = next_set s1"
  using assms
  by (cases res) (auto simp: after_matcher_def add_cache_entry_sets Let_def split: if_splits)

lemma check_parameterized_frame:
  assumes "collaborators_frame c"
    and "check_parameterized w c s obj type_hint origin args options parents raise_on_error
           context imm = Some (s', r)"
  shows "frame s s'"
proof (cases "args = [] \<and> isinstance w obj type_hint = Some True")
  case True
  with assms(2) have "return_valid w s type_hint obj options imm = Some (s', r)"
    by (simp add: check_parameterized_def)
  then show ?thesis by (rule return_valid_frame)
next
  case False
  define s2 where "s2 = fst (extend_parents s parents (py_id obj, type_hint, context))"
  define np where "np = snd (extend_parents s parents (py_id obj, type_hint, context))"
  have f2: "frame s s2" by (simp add: s2_def extend_parents_frame)
  have np: "np = next_set s" by (simp add: np_def extend_parents_fresh)
  have n2: "next_set s2 = Suc (next_set s)" by (simp add: s2_def extend_parents_fresh)
  from assms(1) have ef: "entry_frame (check_instance_of_typehint c)"
    by (simp add: collaborators_frame_def)
  show ?thesis
  proof (cases "dispatch w origin")
    case (Inl e)
    with assms(2) f2 show ?thesis
      by (auto simp: check_parameterized_unfold [OF False] s2_def)
  next
    case (Inr ko)
    show ?thesis
    proof (cases ko)
      case None
      with Inr assms(2) have
        "fallback w c s2 obj type_hint origin args options parents raise_on_error imm
           = Some (s', r)"
        by (simp add: check_parameterized_unfold [OF False] s2_def)
      from frame_trans [OF f2 fallback_frame [OF ef this]] show ?thesis .
    next
      case (Some k)
      with Inr assms(2) have am:
        "after_matcher w type_hint obj options raise_on_error
           (run_matcher c k s2 obj type_hint origin args options np raise_on_error)
           = Some (s', r)"
        by (simp add: check_parameterized_unfold [OF False] s2_def np_def)
      then obtain s3 res where run:
        "run_matcher c k s2 obj type_hint origin args options np raise_on_error
           = Some (s3, res)"
        by (cases "run_matcher c k s2 obj type_hint origin args options np raise_on_error")
          (auto simp: after_matcher_def)
      from assms(1) run have fe: "frame_except np s2 s3"
        unfolding collaborators_frame_def by blast
      from am run have "after_matcher w type_hint obj options raise_on_error
          (Some (s3, res)) = Some (s', r)" by simp
      from after_matcher_frame [OF this] have e: "sets s' = sets s3" "next_set s' = next_set s3"
        by simp_all
      from f2 fe e np n2 show ?thesis
        by (auto simp: frame_def frame_except_def)
    qed
  qed
qed

lemma check_generic_frame:
  assumes "collaborators_frame c"
    and "check_generic w c s obj type_hint origin args options parents raise_on_error context
           = Some (s', r)"
  shows "frame s s'"
proof (cases "valid_in_cache s type_hint obj")
  case (Some v)
  with assms(2) show ?thesis by (auto simp: check_generic_def frame_refl split: if_splits)
next
  case None
  show ?thesis
  proof (cases "non_runtime_protocol w type_hint")
    case True
    with None assms(2) show ?thesis by (auto simp: check_generic_def frame_refl split: if_splits)
  next
    case False
    show ?thesis
    proof (cases "implied_origin w type_hint origin args")
      case (Inl e)
      with None False assms(2) show ?thesis by (auto simp: check_generic_def frame_refl)
    next
      case (Inr oa)
      obtain origin' args' where oa: "oa = (origin', args')" by (cases oa)
      show ?thesis
      proof (cases "origin' = PyNone")
        case True
        show ?thesis
        proof (cases "isinstance w obj type_hint = Some True")
          case t: True
          with None False Inr oa True assms(2) have
            "return_valid w s type_hint obj options (is_immutable w obj) = Some (s', r)"
            by (simp add: check_generic_def)
          then show ?thesis by (rule return_valid_frame)
        next
          case f: False
          with None False Inr oa True assms(2) show ?thesis
            by (auto simp: check_generic_def Let_def frame_refl
                split: option.splits bool.splits if_splits)
        qed
      next
        case nn: False
        show ?thesis
        proof (cases "isinstance w obj origin' = Some True")
          case f: False
          with None False Inr oa nn assms(2) show ?thesis
            by (auto simp: check_generic_def Let_def frame_refl
                split: option.splits bool.splits if_splits)
        next
          case True
          with None False Inr oa nn assms(2) have
            "check_parameterized w c s obj type_hint origin' args' options parents
               raise_on_error context (is_immutable w obj) = Some (s', r)"
            by (simp add: check_generic_def)
          from check_parameterized_frame [OF assms(1) this] show ?thesis .
        qed
      qed
    qed
  qed
qed






lemmas example_defs = example_state_def example_world_def example_options_def
  example_matcher_def example_collaborators_def all_immutable_world_def
  cached_invalid_state_def

lemmas check_generic_defs = check_generic_def valid_in_cache_def CacheKey_init_def
  non_runtime_protocol_def implied_origin_def check_parameterized_def extend_parents_def
  set_copy_def set_add_def dispatch_def is_collections_abc_def matcher_order_def
  run_matcher_def after_matcher_def fallback_def recorded_parameters_def finish_loop_def
  return_valid_def add_cache_entry_def IS_VALID_def NOT_VALID_def IS_IMMUTABLE_def
  NOT_IMMUTABLE_def

lemma example_collaborators_preserve: "collaborators_preserve Q example_collaborators"
  by (auto simp: collaborators_preserve_def entry_preserves_def run_matcher_def example_defs
      split: matcher_kind.splits)

lemma example_collaborators_frame: "collaborators_frame example_collaborators"
  by (auto simp: collaborators_frame_def entry_frame_def frame_def frame_except_def
      run_matcher_def example_defs split: matcher_kind.splits)

section \<open>Lemmas on the recursive check\<close>

lemma check_all_frame:
  assumes "entry_frame chk"
    and "check_all chk s pairs options parents raise_on_error context imm = Some (s', r)"
  shows "frame s s'"
  using assms(2)
proof (induction pairs arbitrary: s imm)
  case Nil
  then show ?case by (simp add: frame_refl)
next
  case (Cons x pairs)
  obtain element hint where x: "x = (element, hint)" by (cases x)
  from Cons.prems x obtain s1 res where
    call: "chk s element hint options parents raise_on_error context = Some (s1, res)"
    by (auto split: option.splits)
  from assms(1) call have f1: "frame s s1" unfolding entry_frame_def by blast
  show ?case
  proof (cases res)
    case (Inl e)
    with Cons.prems x call f1 show ?thesis by auto
  next
    case (Inr cr)
    show ?thesis
    proof (cases "valid cr")
      case False
      with Cons.prems x call f1 Inr show ?thesis by auto
    next
      case True
      with Cons.prems x call Inr have
        "check_all chk s1 pairs options parents raise_on_error context
           (imm \<and> immutable cr) = Some (s', r)" by simp
      from frame_trans [OF f1 Cons.IH [OF this]] show ?thesis .
    qed
  qed
qed

lemma matcher_model_frame:
  assumes "entry_frame chk"
    and "matcher_model w m chk k s obj type_hint origin args options parents raise_on_error
           = Some (s', r)"
  shows "frame s s'"
proof (cases "contents m k obj args")
  case None
  with assms(2) show ?thesis by (auto simp: matcher_model_def frame_refl)
next
  case (Some pairs)
  with assms(2) have "check_all chk s pairs options parents raise_on_error (matcher_context m)
      (is_immutable w obj) = Some (s', r)" by (simp add: matcher_model_def)
  from check_all_frame [OF assms(1) this] show ?thesis .
qed

lemma frame_imp_frame_except: "frame s s' \<Longrightarrow> frame_except p s s'"
  by (simp add: frame_def frame_except_def)

lemma run_matcher_model:
  "run_matcher (collaborators_model w m chk) k s obj type_hint origin args options parents
     raise_on_error =
   (if k = CallableMatcher then callable_model w m s obj type_hint origin args raise_on_error
    else matcher_model w m chk k s obj type_hint origin args options parents raise_on_error)"
  by (cases k) (simp_all add: run_matcher_def collaborators_model_def)

lemma collaborators_model_frame:
  assumes "entry_frame chk"
  shows "collaborators_frame (collaborators_model w m chk)"
proof -
  have "frame s s'"
    if "run_matcher (collaborators_model w m chk) k s obj type_hint origin args options parents
          raise_on_error = Some (s', res)"
    for k s obj type_hint origin args options parents raise_on_error s' res
  proof (cases "k = CallableMatcher")
    case True
    with that show ?thesis by (auto simp: run_matcher_model callable_model_def frame_refl)
  next
    case False
    with that have "matcher_model w m chk k s obj type_hint origin args options parents
        raise_on_error = Some (s', res)" by (simp add: run_matcher_model)
    from matcher_model_frame [OF assms this] show ?thesis .
  qed
  then have "\<forall>k s obj type_hint origin args options parents raise_on_error s' res.
      run_matcher (collaborators_model w m chk) k s obj type_hint origin args options parents
        raise_on_error = Some (s', res) \<longrightarrow> frame_except parents s s'"
    by (blast intro: frame_imp_frame_except)
  moreover have "check_instance_of_typehint (collaborators_model w m chk) = chk"
    by (simp add: collaborators_model_def)
  ultimately show ?thesis using assms by (simp add: collaborators_frame_def)
qed

lemma entry_model_frame: "entry_frame (entry_model n w m)"
proof (induction n)
  case 0
  show ?case by (simp add: entry_frame_def)
next
  case (Suc n)
  let ?c = "collaborators_model w m (entry_model n w m)"
  from Suc have cf: "collaborators_frame ?c" by (rule collaborators_model_frame)
  have "frame s s'"
    if r: "entry_model (Suc n) w m s obj type_hint options parents raise_on_error context
          = Some (s', res)"
    for s obj type_hint options parents raise_on_error "context" s' res
  proof (cases "valid_in_cache s type_hint obj \<noteq> None")
    case True
    with r have "check_generic w ?c s obj type_hint (get_origin m type_hint)
        (get_args m type_hint) options parents raise_on_error context = Some (s', res)"
      by simp
    from check_generic_frame [OF cf this] show ?thesis .
  next
    case False
    show ?thesis
    proof (cases "(py_id obj, type_hint, context) \<in> sets s parents")
      case True
      with False r show ?thesis by (auto simp: frame_refl)
    next
      case nt: False
      with False r have "check_generic w ?c
          (fst (extend_parents s parents (py_id obj, type_hint, context))) obj type_hint
          (get_origin m type_hint) (get_args m type_hint) options
          (snd (extend_parents s parents (py_id obj, type_hint, context)))
          raise_on_error context = Some (s', res)"
        by (simp add: split_def)
      from frame_trans [OF extend_parents_frame check_generic_frame [OF cf this]]
      show ?thesis .
    qed
  qed
  then show ?case unfolding entry_frame_def by blast
qed

lemma check_each_returns:
  assumes "entry_frame chk" and "frame_stable G"
    and "entry_returns_on G D chk options parents raise_on_error context"
  shows "set pairs \<subseteq> D \<Longrightarrow> G s \<Longrightarrow>
     check_each chk s pairs options parents raise_on_error context err acc \<noteq> None"
proof (induction pairs arbitrary: s acc)
  case Nil
  then show ?case by simp
next
  case (Cons x pairs)
  obtain item hint where x: "x = (item, hint)" by (cases x)
  with Cons.prems have "(item, hint) \<in> D" by simp
  with assms(3) Cons.prems(2) obtain s1 res where
    call: "chk s item hint options parents raise_on_error context = Some (s1, res)"
    unfolding entry_returns_on_def by fastforce
  from assms(1) call have "frame s s1" unfolding entry_frame_def by blast
  with assms(2) Cons.prems(2) have g1: "G s1" unfolding frame_stable_def by blast
  from Cons.prems(1) have sub: "set pairs \<subseteq> D" by simp
  show ?case
  proof (cases res)
    case (Inl e)
    with x call show ?thesis by simp
  next
    case (Inr cr)
    with x call Cons.IH [OF sub g1] show ?thesis by simp
  qed
qed

lemma check_all_returns:
  assumes "entry_frame chk" and "frame_stable G"
    and "entry_returns_on G D chk options parents raise_on_error context"
  shows "set pairs \<subseteq> D \<Longrightarrow> G s \<Longrightarrow>
     check_all chk s pairs options parents raise_on_error context imm \<noteq> None"
proof (induction pairs arbitrary: s imm)
  case Nil
  then show ?case by simp
next
  case (Cons x pairs)
  obtain element hint where x: "x = (element, hint)" by (cases x)
  with Cons.prems have "(element, hint) \<in> D" by simp
  with assms(3) Cons.prems(2) obtain s1 res where
    call: "chk s element hint options parents raise_on_error context = Some (s1, res)"
    unfolding entry_returns_on_def by fastforce
  from assms(1) call have "frame s s1" unfolding entry_frame_def by blast
  with assms(2) Cons.prems(2) have g1: "G s1" unfolding frame_stable_def by blast
  from Cons.prems(1) have sub: "set pairs \<subseteq> D" by simp
  show ?case
  proof (cases res)
    case (Inl e)
    with x call show ?thesis by simp
  next
    case (Inr cr)
    with x call Cons.IH [OF sub g1] show ?thesis by simp
  qed
qed

lemma finish_loop_returns:
  assumes "looped \<noteq> None"
  shows "finish_loop w type_hint obj options looped \<noteq> None"
proof -
  from assms obtain s r where l: "looped = Some (s, r)" by (cases looped) auto
  show ?thesis
  proof (cases r)
    case (Inl e)
    with l show ?thesis by (simp add: finish_loop_def)
  next
    case (Inr ex)
    with l show ?thesis by (cases ex) (simp_all add: finish_loop_def return_valid_def)
  qed
qed

lemma fallback_returns:
  assumes "entry_frame (check_instance_of_typehint c)" and "frame_stable G"
    and "entry_returns_on G D (check_instance_of_typehint c) options parents raise_on_error
           ''generic_parameter''"
    and "entry_returns_on G D (check_instance_of_typehint c) options parents raise_on_error
           ''generic_item''"
    and "set (fst (nested_checks w obj origin args)) \<subseteq> D"
    and "G s"
  shows "fallback w c s obj type_hint origin args options parents raise_on_error imm \<noteq> None"
proof (cases "recorded_parameters w obj origin args")
  case (Some obj_args)
  with assms(5) have "set (zip obj_args args) \<subseteq> D" by (simp add: nested_checks_def)
  from check_each_returns [OF assms(1,2,3) this assms(6)] Some show ?thesis
    by (simp add: fallback_def finish_loop_returns)
next
  case None
  show ?thesis
  proof (cases "iter_items w obj")
    case n: None
    with None show ?thesis by (simp add: fallback_def return_valid_def)
  next
    case (Some items)
    show ?thesis
    proof (cases args)
      case Nil
      with None Some show ?thesis by (simp add: fallback_def return_valid_def)
    next
      case (Cons hint rest)
      with None Some assms(5) have "set (map (\<lambda>item. (item, hint)) items) \<subseteq> D"
        by (simp add: nested_checks_def)
      from check_each_returns [OF assms(1,2,4) this assms(6)] None Some Cons show ?thesis
        by (simp add: fallback_def finish_loop_returns)
    qed
  qed
qed

lemma after_matcher_returns:
  assumes "matched \<noteq> None"
  shows "after_matcher w type_hint obj options raise_on_error matched \<noteq> None"
proof -
  from assms obtain s r where l: "matched = Some (s, r)" by (cases matched) auto
  show ?thesis
    using l by (cases r) (simp_all add: after_matcher_def Let_def)
qed

lemma check_parameterized_returns:
  assumes "entry_frame (check_instance_of_typehint c)" and "frame_stable G"
    and "entry_returns_on G D (check_instance_of_typehint c) options parents raise_on_error
           ''generic_parameter''"
    and "entry_returns_on G D (check_instance_of_typehint c) options parents raise_on_error
           ''generic_item''"
    and "set (fst (nested_checks w obj origin args)) \<subseteq> D"
    and "G s"
    and "\<forall>k. run_matcher c k (fst (extend_parents s parents (py_id obj, type_hint, context)))
           obj type_hint origin args options
           (snd (extend_parents s parents (py_id obj, type_hint, context))) raise_on_error
           \<noteq> None"
  shows "check_parameterized w c s obj type_hint origin args options parents raise_on_error
           context imm \<noteq> None"
proof (cases "args = [] \<and> isinstance w obj type_hint = Some True")
  case True
  then show ?thesis by (simp add: check_parameterized_def return_valid_def)
next
  case False
  from assms(2,6) extend_parents_frame
  have g2: "G (fst (extend_parents s parents (py_id obj, type_hint, context)))"
    unfolding frame_stable_def by blast
  show ?thesis
  proof (cases "dispatch w origin")
    case (Inl e)
    then show ?thesis by (simp add: check_parameterized_unfold [OF False])
  next
    case (Inr ko)
    show ?thesis
    proof (cases ko)
      case None
      with Inr fallback_returns [OF assms(1,2,3,4,5) g2] show ?thesis
        by (simp add: check_parameterized_unfold [OF False])
    next
      case (Some k)
      with Inr assms(7) show ?thesis
        by (simp add: check_parameterized_unfold [OF False] after_matcher_returns)
    qed
  qed
qed

lemma check_generic_returns:
  assumes "entry_frame (check_instance_of_typehint c)" and "frame_stable G"
    and "entry_returns_on G D (check_instance_of_typehint c) options parents raise_on_error
           ''generic_parameter''"
    and "entry_returns_on G D (check_instance_of_typehint c) options parents raise_on_error
           ''generic_item''"
    and "\<forall>origin args. implied_origin w type_hint origin0 args0 = Inr (origin, args) \<longrightarrow>
           set (fst (nested_checks w obj origin args)) \<subseteq> D"
    and "G s"
    and "\<forall>origin args k. implied_origin w type_hint origin0 args0 = Inr (origin, args) \<longrightarrow>
           run_matcher c k (fst (extend_parents s parents (py_id obj, type_hint, context)))
             obj type_hint origin args options
             (snd (extend_parents s parents (py_id obj, type_hint, context))) raise_on_error
           \<noteq> None"
  shows "check_generic w c s obj type_hint origin0 args0 options parents raise_on_error context
           \<noteq> None"
proof (cases "valid_in_cache s type_hint obj")
  case (Some v)
  then show ?thesis by (simp add: check_generic_def)
next
  case None
  show ?thesis
  proof (cases "non_runtime_protocol w type_hint")
    case True
    with None show ?thesis by (simp add: check_generic_def)
  next
    case False
    show ?thesis
    proof (cases "implied_origin w type_hint origin0 args0")
      case (Inl e)
      with None False show ?thesis by (simp add: check_generic_def)
    next
      case (Inr oa)
      obtain origin args where oa: "oa = (origin, args)" by (cases oa)
      from Inr oa assms(5) have nc: "set (fst (nested_checks w obj origin args)) \<subseteq> D"
        by blast
      from Inr oa assms(7) have rm:
        "\<forall>k. run_matcher c k (fst (extend_parents s parents (py_id obj, type_hint, context)))
             obj type_hint origin args options
             (snd (extend_parents s parents (py_id obj, type_hint, context))) raise_on_error
           \<noteq> None" by blast
      from check_parameterized_returns [OF assms(1,2,3,4) nc assms(6) rm]
      have cp: "check_parameterized w c s obj type_hint origin args options parents
          raise_on_error context (is_immutable w obj) \<noteq> None" .
      show ?thesis
      proof (cases "origin = PyNone")
        case True
        with None False Inr oa show ?thesis
          by (cases "isinstance w obj type_hint")
            (simp_all add: check_generic_def Let_def return_valid_def split: bool.splits)
      next
        case nn: False
        show ?thesis
        proof (cases "isinstance w obj origin")
          case n2: None
          with None False Inr oa nn show ?thesis by (simp add: check_generic_def)
        next
          case (Some b)
          with None False Inr oa nn cp show ?thesis
            by (cases b) (simp_all add: check_generic_def)
        qed
      qed
    qed
  qed
qed

lemma tokens_finite:
  "finite objs \<Longrightarrow> finite hints \<Longrightarrow> finite (tokens objs hints (labels_of m context))"
  by (simp add: tokens_def labels_of_def)

lemma token_mem:
  "obj \<in> objs \<Longrightarrow> hint \<in> hints \<Longrightarrow> label \<in> labels \<Longrightarrow>
     (py_id obj, hint, label) \<in> tokens objs hints labels"
  by (force simp: tokens_def)

lemma implied_origin_args:
  "implied_origin w type_hint origin args = Inr (origin', args') \<Longrightarrow>
     set args' \<subseteq> set args \<union> {AnyT, EllipsisV}"
  by (auto simp: implied_origin_def split: if_splits option.splits bool.splits)

lemma recorded_parameters_closed:
  assumes "closed_universe w m objs hints" and "obj \<in> objs"
    and "recorded_parameters w obj origin args = Some obj_args"
  shows "set obj_args \<subseteq> objs"
proof (cases "orig_class w obj")
  case None
  with assms(3) have "dunder_args w (type_of w obj) = Some obj_args"
    by (auto simp: recorded_parameters_def Let_def split: option.splits if_splits)
  with assms(1,2) show ?thesis unfolding closed_universe_def by blast
next
  case (Some oc)
  show ?thesis
  proof (cases "dunder_args w oc")
    case None
    with Some assms(3) have "obj_args = []"
      by (auto simp: recorded_parameters_def Let_def split: if_splits)
    then show ?thesis by simp
  next
    case s2: (Some xs)
    with Some assms(3) have "obj_args = xs"
      by (auto simp: recorded_parameters_def Let_def split: if_splits)
    with Some s2 assms(1,2) show ?thesis unfolding closed_universe_def by blast
  qed
qed

lemma nested_checks_closed:
  assumes "closed_universe w m objs hints" and "obj \<in> objs" and "set args \<subseteq> hints"
  shows "set (fst (nested_checks w obj origin args)) \<subseteq> objs \<times> hints"
proof (cases "recorded_parameters w obj origin args")
  case (Some obj_args)
  from recorded_parameters_closed [OF assms(1,2) Some] assms(3)
  have "set (zip obj_args args) \<subseteq> objs \<times> hints"
    by (auto dest: set_zip_leftD set_zip_rightD)
  with Some show ?thesis by (simp add: nested_checks_def)
next
  case None
  show ?thesis
  proof (cases "iter_items w obj")
    case n: None
    with None show ?thesis by (simp add: nested_checks_def)
  next
    case (Some items)
    with assms(1,2) have it: "set items \<subseteq> objs" unfolding closed_universe_def by blast
    show ?thesis
    proof (cases args)
      case Nil
      with None Some show ?thesis by (simp add: nested_checks_def)
    next
      case (Cons hint rest)
      with assms(3) have "hint \<in> hints" by simp
      with it None Some Cons show ?thesis by (auto simp: nested_checks_def)
    qed
  qed
qed

lemma card_unvisited_insert:
  assumes "finite U" and "t \<in> U" and "t \<notin> P"
  shows "card (U - insert t P) < card (U - P)"
proof -
  from assms(2,3) have "U - insert t P \<subset> U - P" by blast
  moreover from assms(1) have "finite (U - P)" by simp
  ultimately show ?thesis by (rule psubset_card_mono [rotated])
qed

lemma card_unvisited_mono:
  assumes "finite U"
  shows "card (U - insert t P) \<le> card (U - P)"
proof -
  have "U - insert t P \<subseteq> U - P" by blast
  moreover from assms have "finite (U - P)" by simp
  ultimately show ?thesis by (rule card_mono [rotated])
qed

lemma matcher_model_returns:
  assumes "entry_frame chk" and "frame_stable G"
    and "entry_returns_on G (objs \<times> hints) chk options parents raise_on_error
           (matcher_context m)"
    and "closed_universe w m objs hints" and "obj \<in> objs" and "set args \<subseteq> hints"
    and "G s"
  shows "run_matcher (collaborators_model w m chk) k s obj type_hint origin args options
           parents raise_on_error \<noteq> None"
proof (cases "k = CallableMatcher")
  case True
  then show ?thesis by (simp add: run_matcher_model callable_model_def)
next
  case False
  show ?thesis
  proof (cases "contents m k obj args")
    case None
    with False show ?thesis by (simp add: run_matcher_model matcher_model_def)
  next
    case (Some pairs)
    with assms(4,5,6) have "set pairs \<subseteq> objs \<times> hints"
      unfolding closed_universe_def by blast
    from check_all_returns [OF assms(1,2,3) this assms(7)] False Some show ?thesis
      by (simp add: run_matcher_model matcher_model_def)
  qed
qed

lemma entry_model_returns:
  assumes cu: "closed_universe w m objs hints"
  shows "obj \<in> objs \<Longrightarrow> hint \<in> hints \<Longrightarrow> label \<in> labels_of m context \<Longrightarrow>
     p < next_set s \<Longrightarrow>
     card (tokens objs hints (labels_of m context) - sets s p) < n \<Longrightarrow>
     entry_model n w m s obj hint options p raise_on_error label \<noteq> None"
proof (induction n arbitrary: s obj hint label p)
  case 0
  then show ?case by simp
next
  case (Suc n)
  let ?U = "tokens objs hints (labels_of m context)"
  let ?chk = "entry_model n w m"
  let ?c = "collaborators_model w m ?chk"
  let ?tok = "(py_id obj, hint, label)"
  from cu have fin: "finite ?U" by (simp add: closed_universe_def tokens_finite)
  have chk: "check_instance_of_typehint ?c = ?chk" by (simp add: collaborators_model_def)
  have ef: "entry_frame (check_instance_of_typehint ?c)"
    by (simp add: chk entry_model_frame)
  from cu Suc.prems(2) have ga: "set (get_args m hint) \<subseteq> hints"
    unfolding closed_universe_def by blast
  from cu have special: "AnyT \<in> hints" "EllipsisV \<in> hints"
    by (simp_all add: closed_universe_def)
  have args_ok: "set args \<subseteq> hints"
    if "implied_origin w hint (get_origin m hint) (get_args m hint) = Inr (origin, args)"
    for origin args
    using implied_origin_args [OF that] ga special by auto
  have returns: "check_generic w ?c s1 obj hint (get_origin m hint) (get_args m hint) options
      g raise_on_error label \<noteq> None"
    if g: "g < next_set s1" and c: "card (?U - sets s1 g) < n"
    for s1 g
  proof -
    let ?G = "\<lambda>s'. g < next_set s' \<and> card (?U - sets s' g) < n"
    have st: "frame_stable ?G" by (auto simp: frame_stable_def frame_def)
    have gs: "?G s1" using g c by simp
    have ent: "entry_returns_on ?G (objs \<times> hints) (check_instance_of_typehint ?c) options g
        raise_on_error l" if "l \<in> labels_of m context" for l
      unfolding entry_returns_on_def chk using Suc.IH that by blast
    have gp: "''generic_parameter'' \<in> labels_of m context"
      and gi: "''generic_item'' \<in> labels_of m context"
      by (simp_all add: labels_of_def)
    have nc: "\<forall>origin args.
        implied_origin w hint (get_origin m hint) (get_args m hint) = Inr (origin, args) \<longrightarrow>
        set (fst (nested_checks w obj origin args)) \<subseteq> objs \<times> hints"
      using nested_checks_closed [OF cu Suc.prems(1)] args_ok by blast
    let ?s2 = "fst (extend_parents s1 g ?tok)"
    let ?np = "snd (extend_parents s1 g ?tok)"
    let ?G2 = "\<lambda>s'. ?np < next_set s' \<and> card (?U - sets s' ?np) < n"
    have st2: "frame_stable ?G2" by (auto simp: frame_stable_def frame_def)
    have "card (?U - sets ?s2 ?np) \<le> card (?U - sets s1 g)"
      by (simp add: extend_parents_fresh card_unvisited_mono [OF fin])
    with c have gs2: "?G2 ?s2" by (simp add: extend_parents_fresh)
    have ent2: "entry_returns_on ?G2 (objs \<times> hints) ?chk options ?np raise_on_error
        (matcher_context m)"
      unfolding entry_returns_on_def using Suc.IH by (simp add: labels_of_def)
    have rm: "\<forall>origin args k.
        implied_origin w hint (get_origin m hint) (get_args m hint) = Inr (origin, args) \<longrightarrow>
        run_matcher ?c k ?s2 obj hint origin args options ?np raise_on_error \<noteq> None"
      using matcher_model_returns [OF entry_model_frame st2 ent2 cu Suc.prems(1) _ gs2]
        args_ok by blast
    show ?thesis
      by (rule check_generic_returns [OF ef st ent [OF gp] ent [OF gi] nc gs rm])
  qed
  show ?case
  proof (cases "valid_in_cache s hint obj \<noteq> None")
    case True
    then show ?thesis by (auto simp: check_generic_def)
  next
    case False
    show ?thesis
    proof (cases "?tok \<in> sets s p")
      case True
      with False show ?thesis by simp
    next
      case nt: False
      from Suc.prems(1,2,3) have "?tok \<in> ?U" by (rule token_mem)
      from card_unvisited_insert [OF fin this nt] Suc.prems(5)
      have "card (?U - insert ?tok (sets s p)) < n" by simp
      then have c1: "card (?U - sets (fst (extend_parents s p ?tok))
          (snd (extend_parents s p ?tok))) < n"
        by (simp add: extend_parents_fresh)
      have g1: "snd (extend_parents s p ?tok) < next_set (fst (extend_parents s p ?tok))"
        by (simp add: extend_parents_fresh)
      from returns [OF g1 c1] False nt show ?thesis by (simp add: split_def)
    qed
  qed
qed

lemma card_tokens_le:
  assumes "finite objs" and "finite hints"
  shows "card (tokens objs hints (labels_of m context)) \<le> card objs * card hints * 4"
proof -
  have "labels_of m context
      = set [context, matcher_context m, ''generic_parameter'', ''generic_item'']"
    by (simp add: labels_of_def)
  then have "card (labels_of m context) \<le> 4"
    using card_length [of "[context, matcher_context m, ''generic_parameter'',
      ''generic_item'']"] by simp
  moreover have "card (tokens objs hints (labels_of m context))
      \<le> card (objs \<times> hints \<times> labels_of m context)"
    unfolding tokens_def
    by (rule card_image_le) (simp add: assms labels_of_def)
  moreover have "card (objs \<times> hints \<times> labels_of m context)
      = card objs * card hints * card (labels_of m context)"
    by (simp add: card_cartesian_product)
  ultimately show ?thesis
    by (metis (no_types) mult_le_mono2 order_trans)
qed

lemma cyclic_closed:
  "closed_universe cyclic_world cyclic_typing {Addr 30} {Addr 31, AnyT, EllipsisV}"
  by (auto simp: closed_universe_def cyclic_world_def cyclic_typing_def
      split: list.splits if_splits)

lemma cyclic_eval:
  "map_option snd
     (entry_model 13 cyclic_world cyclic_typing example_state (Addr 30) (Addr 31)
        example_options 0 False '''')
   = Some (Inr \<lparr>valid = True, immutable = False\<rparr>)"
  by (simp add: eval_nat_numeral cyclic_world_def cyclic_typing_def example_state_def
      example_options_def check_generic_defs first_match.simps collaborators_model_def
      matcher_model_def callable_model_def)


section \<open>Properties\<close>

text \<open>
  C9. Two CacheKeys are equal, and have equal hashes, if and only if their stored types are
  equal and their stored instance ids are equal. The key of an object holds its identity and
  nothing of its value: two distinct objects, whether their values are equal or not, get
  unequal keys under the same type, and a cache entry written for one is not seen when the
  other is looked up.
\<close>

theorem CacheKey_equal_iff_type_and_id:
  "((CacheKey_eq k1 (Inl k2) = Bool True \<and> CacheKey_hash py_hash k1 = CacheKey_hash py_hash k2)
      \<longleftrightarrow> (obj_type k1 = obj_type k2 \<and> instance_id k1 = instance_id k2))
   \<and> (a \<noteq> b \<longrightarrow>
        CacheKey_eq (CacheKey_init t a) (Inl (CacheKey_init t b)) = Bool False
        \<and> valid_in_cache (add_cache_entry w t a v nc s) t b = valid_in_cache s t b)"
  by (auto simp: CacheKey_eq_def CacheKey_hash_def CacheKey_init_def py_id_eq_iff
      valid_in_cache_def add_cache_entry_def)

theorem CacheKey_equal_iff_type_and_id_witness:
  "Addr 1 \<noteq> Addr 7
   \<and> CacheKey_eq (CacheKey_init (Addr 6) (Addr 1)) (Inl (CacheKey_init (Addr 6) (Addr 7)))
       = Bool False
   \<and> valid_in_cache (add_cache_entry example_world (Addr 6) (Addr 1) True {} example_state)
       (Addr 6) (Addr 7) = None"
  using CacheKey_equal_iff_type_and_id
    [of "CacheKey_init (Addr 6) (Addr 1)" "CacheKey_init (Addr 6) (Addr 7)" "\<lambda>p. 0"
      "Addr 1" "Addr 7" "Addr 6" example_world True "{}" example_state]
  by (simp add: valid_in_cache_def example_state_def)

text \<open>
  C6. When the cache holds a verdict for (type hint, identity of the object), the call
  returns that verdict with immutable = True, and raises the typed error with tag
  TYPE_HINT_MISMATCH instead exactly when the verdict is invalid and \<open>raise_on_error\<close> is
  set. The state is left as it was, and neither the runtime nor a collaborator has a part in
  the result: no matching logic runs.
\<close>

theorem cache_hit_returns_cached_verdict:
  assumes "valid_in_cache s type_hint obj = Some v"
  shows "check_generic w c s obj type_hint origin args options parents raise_on_error context =
           (if v \<or> \<not> raise_on_error
            then Some (s, Inr \<lparr>valid = v, immutable = True\<rparr>)
            else Some (s, Inl (TypeCheckedTypeError CachedNotInstanceOfTypeHint
                                 TYPE_HINT_MISMATCH)))"
  using assms by (simp add: check_generic_def IS_IMMUTABLE_def)

theorem cache_hit_returns_cached_verdict_witness:
  "valid_in_cache cached_invalid_state (Addr 2) (Addr 1) = Some False
   \<and> check_generic example_world example_collaborators cached_invalid_state (Addr 1) (Addr 2)
       (Addr 5) [Addr 6] example_options 0 True '''' =
       Some (cached_invalid_state,
             Inl (TypeCheckedTypeError CachedNotInstanceOfTypeHint TYPE_HINT_MISMATCH))
   \<and> check_generic example_world example_collaborators cached_invalid_state (Addr 1) (Addr 2)
       (Addr 5) [Addr 6] example_options 0 False '''' =
       Some (cached_invalid_state, Inr \<lparr>valid = False, immutable = True\<rparr>)"
proof -
  have h: "valid_in_cache cached_invalid_state (Addr 2) (Addr 1) = Some False"
    by (simp add: valid_in_cache_def cached_invalid_state_def)
  from h cache_hit_returns_cached_verdict [OF h, of example_world example_collaborators
      "Addr 5" "[Addr 6]" example_options 0 True "''''"]
    cache_hit_returns_cached_verdict [OF h, of example_world example_collaborators
      "Addr 5" "[Addr 6]" example_options 0 False "''''"]
  show ?thesis by simp
qed

text \<open>
  C5. A hint that has Protocol among its bases and is not marked runtime-checkable is
  rejected as soon as the cache probe has missed (the probe is the first step, C6): with
  \<open>raise_on_error\<close> the typed error with tag NON_RUNTIME_CHECKABLE_PROTOCOL is raised,
  without it an invalid CheckResult with the object's immutability classification is
  returned. The state is left as it was and no collaborator has a part in the result, so no
  structural matching is done.
\<close>

theorem non_runtime_protocol_rejected:
  assumes "valid_in_cache s type_hint obj = None"
    and "mro w type_hint = Some bases" and "Protocol \<in> set bases"
    and "\<not> is_runtime_protocol w type_hint"
  shows "check_generic w c s obj type_hint origin args options parents raise_on_error context =
           Some (s, if raise_on_error
                    then Inl (TypeCheckedTypeError ProtocolNotRuntimeCheckable
                                NON_RUNTIME_CHECKABLE_PROTOCOL)
                    else Inr \<lparr>valid = False, immutable = is_immutable w obj\<rparr>)"
  using assms by (simp add: check_generic_def non_runtime_protocol_def NOT_VALID_def)

theorem non_runtime_protocol_rejected_witness:
  "valid_in_cache example_state (Addr 20) (Addr 1) = None
   \<and> mro example_world (Addr 20) = Some [Addr 20, Protocol]
   \<and> Protocol \<in> set [Addr 20, Protocol]
   \<and> \<not> is_runtime_protocol example_world (Addr 20)
   \<and> check_generic example_world example_collaborators example_state (Addr 1) (Addr 20)
       PyNone [] example_options 0 True '''' =
       Some (example_state,
             Inl (TypeCheckedTypeError ProtocolNotRuntimeCheckable
                    NON_RUNTIME_CHECKABLE_PROTOCOL))
   \<and> check_generic example_world example_collaborators example_state (Addr 1) (Addr 20)
       PyNone [] example_options 0 False '''' =
       Some (example_state, Inr \<lparr>valid = False, immutable = True\<rparr>)"
proof -
  have h1: "valid_in_cache example_state (Addr 20) (Addr 1) = None"
    by (simp add: valid_in_cache_def example_state_def)
  have h2: "mro example_world (Addr 20) = Some [Addr 20, Protocol]"
    by (simp add: example_world_def)
  have h3: "Protocol \<in> set [Addr 20, Protocol]" by simp
  have h4: "\<not> is_runtime_protocol example_world (Addr 20)"
    by (simp add: example_world_def)
  have h5: "is_immutable example_world (Addr 1)" by (simp add: example_world_def)
  from h1 h2 h3 h4 h5
    non_runtime_protocol_rejected [OF h1 h2 h3 h4, of example_collaborators PyNone
      "[]" example_options 0 True "''''"]
    non_runtime_protocol_rejected [OF h1 h2 h3 h4, of example_collaborators PyNone
      "[]" example_options 0 False "''''"]
  show ?thesis by simp
qed

text \<open>
  C3, as stated: a call whose origin is one of the typing markers Required, NotRequired,
  ReadOnly, Never raises a typed error that carries a tag of its own for this misuse. The
  code raises with the tag VALIDATION_FAILED, which is the tag of an ordinary mismatch as
  well: below, the marker origin with \<open>raise_on_error = False\<close> and an object that is not
  an instance of the class \<open>Addr 3\<close> with \<open>raise_on_error = True\<close> raise errors with the same
  tag. Only the message tells them apart.
\<close>

theorem pseudo_origin_tag_not_dedicated:
  "check_generic example_world example_collaborators example_state (Addr 1) (Addr 2)
     Required [Addr 6] example_options 0 False '''' =
     Some (example_state,
           Inl (TypeCheckedTypeError OriginInvalidOutsideTypedDict VALIDATION_FAILED))
   \<and> check_generic example_world example_collaborators example_state (Addr 1) (Addr 2)
       (Addr 3) [Addr 6] example_options 0 True '''' =
       Some (example_state, Inl (TypeCheckedTypeError NotInstanceOfOrigin VALIDATION_FAILED))"
  by (simp add: example_defs check_generic_defs)

text \<open>
  C3, amended: when the cache probe has missed and the hint is not a Protocol that is not
  runtime-checkable, a call whose origin is one of the four markers, which
  \<^verbatim>\<open>isinstance\<close> rejects with a TypeError, raises the typed error with the message for a
  marker outside a TypedDict and the tag VALIDATION_FAILED, whether \<open>raise_on_error\<close> is
  set or not. The state is left as it was.
\<close>

theorem pseudo_origin_raises_validation_failed:
  assumes "valid_in_cache s type_hint obj = None"
    and "\<not> non_runtime_protocol w type_hint"
    and "origin \<in> {Required, NotRequired, ReadOnly, Never}"
    and "isinstance w obj origin = None"
  shows "check_generic w c s obj type_hint origin args options parents raise_on_error context =
           Some (s, Inl (TypeCheckedTypeError OriginInvalidOutsideTypedDict VALIDATION_FAILED))"
proof -
  from assms(3) have "origin \<noteq> PyNone" by auto
  then have "implied_origin w type_hint origin args = Inr (origin, args)"
    by (rule implied_origin_resolved)
  with assms \<open>origin \<noteq> PyNone\<close> show ?thesis
    by (simp add: check_generic_def)
qed

theorem pseudo_origin_raises_validation_failed_witness:
  "valid_in_cache example_state (Addr 2) (Addr 1) = None
   \<and> \<not> non_runtime_protocol example_world (Addr 2)
   \<and> NotRequired \<in> {Required, NotRequired, ReadOnly, Never}
   \<and> isinstance example_world (Addr 1) NotRequired = None
   \<and> check_generic example_world example_collaborators example_state (Addr 1) (Addr 2)
       NotRequired [Addr 6] example_options 0 False '''' =
       Some (example_state,
             Inl (TypeCheckedTypeError OriginInvalidOutsideTypedDict VALIDATION_FAILED))"
proof -
  have h1: "valid_in_cache example_state (Addr 2) (Addr 1) = None"
    by (simp add: valid_in_cache_def example_state_def)
  have h2: "\<not> non_runtime_protocol example_world (Addr 2)"
    by (simp add: non_runtime_protocol_def example_world_def)
  have h3: "NotRequired \<in> {Required, NotRequired, ReadOnly, Never}" by simp
  have h4: "isinstance example_world (Addr 1) NotRequired = None"
    by (simp add: example_world_def)
  from h1 h2 h3 h4
    pseudo_origin_raises_validation_failed [OF h1 h2 h3 h4, of example_collaborators
      "[Addr 6]" example_options 0 False "''''"]
  show ?thesis by simp
qed



text \<open>
  C10. Take an object that is an instance of the resolved origin, for which no structural
  matcher is chosen, that has no \<^verbatim>\<open>__orig_class__\<close>, whose runtime type records no
  origin and arguments that match those of the hint, and that is not iterable. Once the
  cache probe has missed and the hint is not a rejected Protocol, the call returns valid
  with immutable = is_immutable(obj). The result is the same whatever the collaborators
  are, and the entry point is the only thing that compares anything with an argument of
  the hint: the arguments are never looked at.
\<close>

theorem unmatched_generic_accepted_vacuously:
  assumes "valid_in_cache s type_hint obj = None"
    and "\<not> non_runtime_protocol w type_hint"
    and "origin \<noteq> PyNone"
    and "isinstance w obj origin = Some True"
    and "dispatch w origin = Inr None"
    and "orig_class w obj = None"
    and "\<forall>xs. dunder_args w (type_of w obj) = Some xs \<longrightarrow>
           dunder_origin w (type_of w obj) \<noteq> Some origin \<or> length xs \<noteq> length args"
    and "iter_items w obj = None"
  shows "(\<exists>s'. check_generic w c s obj type_hint origin args options parents raise_on_error
                 context =
               Some (s', Inr \<lparr>valid = True, immutable = is_immutable w obj\<rparr>))
         \<and> (\<forall>c'. check_generic w c' s obj type_hint origin args options parents raise_on_error
                    context =
                  check_generic w c s obj type_hint origin args options parents raise_on_error
                    context)"
proof -
  have eq: "check_generic w c' s obj type_hint origin args options parents raise_on_error context =
      return_valid w
        (if args = [] \<and> isinstance w obj type_hint = Some True then s
         else fst (extend_parents s parents (py_id obj, type_hint, context)))
        type_hint obj options (is_immutable w obj)" for c'
    using check_generic_reaches_parameterized [OF assms(1,2)
        implied_origin_resolved [OF assms(3)] assms(3,4)]
      fallback_vacuous [OF assms(6,7,8,3)] assms(5)
    by (simp add: check_parameterized_def split_def)
  show ?thesis
    by (simp add: eq) (simp add: return_valid_def IS_VALID_def)
qed

theorem unmatched_generic_accepted_vacuously_witness:
  "valid_in_cache example_state (Addr 2) (Addr 1) = None
   \<and> \<not> non_runtime_protocol example_world (Addr 2)
   \<and> isinstance example_world (Addr 1) (Addr 5) = Some True
   \<and> dispatch example_world (Addr 5) = Inr None
   \<and> orig_class example_world (Addr 1) = None
   \<and> dunder_args example_world (type_of example_world (Addr 1)) = None
   \<and> iter_items example_world (Addr 1) = None
   \<and> (\<exists>s'. check_generic example_world example_collaborators example_state (Addr 1) (Addr 2)
              (Addr 5) [Addr 6] example_options 0 False '''' =
            Some (s', Inr \<lparr>valid = True, immutable = True\<rparr>))"
proof -
  have h1: "valid_in_cache example_state (Addr 2) (Addr 1) = None"
    by (simp add: valid_in_cache_def example_state_def)
  have h2: "\<not> non_runtime_protocol example_world (Addr 2)"
    by (simp add: non_runtime_protocol_def example_world_def)
  have h3: "Addr 5 \<noteq> PyNone" by simp
  have h4: "isinstance example_world (Addr 1) (Addr 5) = Some True"
    by (simp add: example_world_def)
  have h5: "dispatch example_world (Addr 5) = Inr None"
    by (simp add: dispatch_def is_collections_abc_def example_world_def)
  have h6: "orig_class example_world (Addr 1) = None" by (simp add: example_world_def)
  have h7a: "dunder_args example_world (type_of example_world (Addr 1)) = None"
    by (simp add: example_world_def)
  then have h7: "\<forall>xs. dunder_args example_world (type_of example_world (Addr 1)) = Some xs \<longrightarrow>
      dunder_origin example_world (type_of example_world (Addr 1)) \<noteq> Some (Addr 5)
      \<or> length xs \<noteq> length [Addr 6]" by simp
  have h8: "iter_items example_world (Addr 1) = None" by (simp add: example_world_def)
  have h9: "is_immutable example_world (Addr 1)" by (simp add: example_world_def)
  from unmatched_generic_accepted_vacuously [OF h1 h2 h3 h4 h5 h6 h7 h8,
      of example_collaborators example_options 0 False "''''"] h9
  have "\<exists>s'. check_generic example_world example_collaborators example_state (Addr 1) (Addr 2)
              (Addr 5) [Addr 6] example_options 0 False '''' =
            Some (s', Inr \<lparr>valid = True, immutable = True\<rparr>)" by simp
  with h1 h2 h4 h5 h6 h7a h8 show ?thesis by simp
qed

text \<open>
  C1. Whatever the collaborators do to the cache, the call itself changes it in one way
  only: for any property \<open>Q\<close> of caches that the collaborators maintain, the cache after
  the call satisfies \<open>Q\<close>, or else it is a cache that satisfies \<open>Q\<close> with one entry added or
  replaced, the verdict \<open>True\<close> under the key of (type hint, object). The second case
  occurs only if the call returns valid and immutable, the type of the object is not among
  the non-cacheable types, and the object was classified immutable: by \<open>is_immutable\<close>,
  or by the matcher whose result, with immutable set, is the one returned. So no path
  caches an invalid verdict, and none caches for an object classified mutable.
\<close>

theorem cache_written_only_when_valid_and_immutable:
  assumes "collaborators_preserve Q c"
    and "Q (cache s)"
    and "check_generic w c s obj type_hint origin args options parents raise_on_error context
           = Some (s', r)"
  shows "Q (cache s') \<or>
         (r = Inr \<lparr>valid = True, immutable = True\<rparr>
          \<and> type_of w obj \<notin> noncachable_types options
          \<and> (\<exists>c0. Q c0 \<and> cache s' = c0(CacheKey_init type_hint obj \<mapsto> True))
          \<and> (is_immutable w obj
               \<or> (\<exists>k s1 s2 g1 a1 p1. run_matcher c k s1 obj type_hint g1 a1 options p1
                                          raise_on_error = Some (s2, r))))"
proof (cases "valid_in_cache s type_hint obj")
  case (Some v)
  with assms(2,3) show ?thesis by (auto simp: check_generic_def split: if_splits)
next
  case None
  show ?thesis
  proof (cases "non_runtime_protocol w type_hint")
    case True
    with None assms(2,3) show ?thesis by (auto simp: check_generic_def split: if_splits)
  next
    case False
    show ?thesis
    proof (cases "implied_origin w type_hint origin args")
      case (Inl e)
      with None False assms(2,3) show ?thesis by (auto simp: check_generic_def)
    next
      case (Inr oa)
      obtain origin' args' where oa: "oa = (origin', args')" by (cases oa)
      show ?thesis
      proof (cases "origin' = PyNone")
        case True
        show ?thesis
        proof (cases "isinstance w obj type_hint = Some True")
          case t: True
          with None False Inr oa True assms(3) have
            "return_valid w s type_hint obj options (is_immutable w obj) = Some (s', r)"
            by (simp add: check_generic_def)
          from return_valid_write [where Q = Q, OF assms(2) this] show ?thesis
            by (auto simp: own_write_def)
        next
          case f: False
          with None False Inr oa True assms(2,3) show ?thesis
            by (auto simp: check_generic_def Let_def split: option.splits bool.splits if_splits)
        qed
      next
        case nn: False
        show ?thesis
        proof (cases "isinstance w obj origin' = Some True")
          case f: False
          with None False Inr oa nn assms(2,3) show ?thesis
            by (auto simp: check_generic_def Let_def split: option.splits bool.splits if_splits)
        next
          case True
          with None False Inr oa nn assms(3) have
            "check_parameterized w c s obj type_hint origin' args' options parents
               raise_on_error context (is_immutable w obj) = Some (s', r)"
            by (simp add: check_generic_def)
          from check_parameterized_write [where Q = Q, OF assms(1) assms(2) this]
          show ?thesis by (auto simp: own_write_def)
        qed
      qed
    qed
  qed
qed


theorem cache_written_only_when_valid_and_immutable_witness:
  "collaborators_preserve (\<lambda>m. m = (\<lambda>k. None)) example_collaborators
   \<and> cache example_state = (\<lambda>k. None)
   \<and> (\<exists>s'. check_generic example_world example_collaborators example_state (Addr 1) (Addr 2)
              (Addr 5) [Addr 6] example_options 0 False '''' =
            Some (s', Inr \<lparr>valid = True, immutable = True\<rparr>)
          \<and> cache s' = (\<lambda>k. None)(CacheKey_init (Addr 2) (Addr 1) \<mapsto> True))
   \<and> type_of example_world (Addr 1) \<notin> noncachable_types example_options
   \<and> is_immutable example_world (Addr 1)"
proof -
  let ?Q = "\<lambda>m :: CacheKey \<Rightarrow> bool option. m = (\<lambda>k. None)"
  let ?s' = "\<lparr>cache = (\<lambda>k. None)(CacheKey_init (Addr 2) (Addr 1) \<mapsto> True),
              sets = (\<lambda>a. {})(1 := {(py_id (Addr 1), Addr 2, '''')}), next_set = 2\<rparr>"
  have h1: "collaborators_preserve ?Q example_collaborators"
    by (rule example_collaborators_preserve)
  have h2: "?Q (cache example_state)" by (simp add: example_state_def)
  have h3: "check_generic example_world example_collaborators example_state (Addr 1) (Addr 2)
      (Addr 5) [Addr 6] example_options 0 False '''' =
      Some (?s', Inr \<lparr>valid = True, immutable = True\<rparr>)"
    by (simp add: example_defs check_generic_defs)
  have h4: "\<not> ?Q (cache ?s')"
  proof
    assume "?Q (cache ?s')"
    then have "cache ?s' (CacheKey_init (Addr 2) (Addr 1)) = None" by (rule fun_cong)
    then show False by simp
  qed
  from cache_written_only_when_valid_and_immutable [where Q = ?Q, OF h1 h2 h3] h4
  have "type_of example_world (Addr 1) \<notin> noncachable_types example_options
    \<and> (\<exists>c0. ?Q c0 \<and> cache ?s' = c0(CacheKey_init (Addr 2) (Addr 1) \<mapsto> True))"
    by blast
  moreover have "is_immutable example_world (Addr 1)" by (simp add: example_world_def)
  ultimately show ?thesis using h1 h2 h3 by auto
qed

text \<open>
  C7. The set object that the caller passes as \<open>parents\<close> is not changed by the call: it
  has the same elements afterwards, provided that the collaborators keep to their part (the
  entry point changes no existing set, a matcher at most the one it is handed). The set
  that the call makes at lines 152 and 153 is a new object, at an address that was not in
  use and so is not the address of \<open>parents\<close>; it holds the elements of \<open>parents\<close> and the
  token of this call; making it leaves \<open>parents\<close> as it was; and it is this new set that
  the matcher is handed.
\<close>

theorem parents_set_not_mutated:
  assumes "collaborators_frame c"
    and "parents < next_set s"
    and "check_generic w c s obj type_hint origin args options parents raise_on_error context
           = Some (s', r)"
  shows "sets s' parents = sets s parents
       \<and> (case extend_parents s parents (py_id obj, type_hint, context) of
            (s2, new_parents) \<Rightarrow>
              new_parents \<noteq> parents
            \<and> next_set s \<le> new_parents
            \<and> sets s2 new_parents = insert (py_id obj, type_hint, context) (sets s parents)
            \<and> sets s2 parents = sets s parents
            \<and> (\<forall>k. valid_in_cache s type_hint obj = None
                    \<and> \<not> non_runtime_protocol w type_hint
                    \<and> origin \<noteq> PyNone
                    \<and> isinstance w obj origin = Some True
                    \<and> \<not> (args = [] \<and> isinstance w obj type_hint = Some True)
                    \<and> dispatch w origin = Inr (Some k) \<longrightarrow>
                   check_generic w c s obj type_hint origin args options parents
                     raise_on_error context =
                   after_matcher w type_hint obj options raise_on_error
                     (run_matcher c k s2 obj type_hint origin args options new_parents
                        raise_on_error)))"
proof -
  from check_generic_frame [OF assms(1,3)] assms(2) have a: "sets s' parents = sets s parents"
    by (simp add: frame_def)
  have b: "valid_in_cache s type_hint obj = None
      \<and> \<not> non_runtime_protocol w type_hint
      \<and> origin \<noteq> PyNone
      \<and> isinstance w obj origin = Some True
      \<and> \<not> (args = [] \<and> isinstance w obj type_hint = Some True)
      \<and> dispatch w origin = Inr (Some k) \<longrightarrow>
     check_generic w c s obj type_hint origin args options parents raise_on_error context =
     after_matcher w type_hint obj options raise_on_error
       (run_matcher c k (fst (extend_parents s parents (py_id obj, type_hint, context)))
          obj type_hint origin args options
          (snd (extend_parents s parents (py_id obj, type_hint, context))) raise_on_error)"
    for k
  proof (intro impI, elim conjE)
    assume h: "valid_in_cache s type_hint obj = None" "\<not> non_runtime_protocol w type_hint"
      "origin \<noteq> PyNone" "isinstance w obj origin = Some True"
      "\<not> (args = [] \<and> isinstance w obj type_hint = Some True)"
      "dispatch w origin = Inr (Some k)"
    from check_generic_reaches_parameterized [OF h(1,2) implied_origin_resolved [OF h(3)] h(3,4)]
      check_parameterized_unfold [OF h(5)] h(6)
    show "check_generic w c s obj type_hint origin args options parents raise_on_error context =
     after_matcher w type_hint obj options raise_on_error
       (run_matcher c k (fst (extend_parents s parents (py_id obj, type_hint, context)))
          obj type_hint origin args options
          (snd (extend_parents s parents (py_id obj, type_hint, context))) raise_on_error)"
      by simp
  qed
  from assms(2) have c: "next_set s \<noteq> parents" by simp
  show ?thesis
    using a b c assms(2)
    by (simp add: split_def extend_parents_fresh)
qed


theorem parents_set_not_mutated_witness:
  "collaborators_frame example_collaborators
   \<and> 0 < next_set example_state
   \<and> (\<exists>s'. check_generic example_world example_collaborators example_state (Addr 1) (Addr 2)
              (Addr 4) [Addr 6, Addr 6] example_options 0 False '''' =
            Some (s', Inr \<lparr>valid = True, immutable = False\<rparr>)
          \<and> sets s' 0 = sets example_state 0
          \<and> sets s' 1 = {(py_id (Addr 1), Addr 2, '''')})"
proof -
  let ?s' = "\<lparr>cache = (\<lambda>k. None),
              sets = (\<lambda>a. {})(1 := {(py_id (Addr 1), Addr 2, '''')}), next_set = 2\<rparr>"
  have h1: "collaborators_frame example_collaborators"
    by (rule example_collaborators_frame)
  have h2: "0 < next_set example_state" by (simp add: example_state_def)
  have h3: "check_generic example_world example_collaborators example_state (Addr 1) (Addr 2)
      (Addr 4) [Addr 6, Addr 6] example_options 0 False '''' =
      Some (?s', Inr \<lparr>valid = True, immutable = False\<rparr>)"
    by (simp add: example_defs check_generic_defs)
  from parents_set_not_mutated [OF h1 h2 h3]
  have "sets ?s' 0 = sets example_state 0" by blast
  with h1 h2 h3 show ?thesis by simp
qed




text \<open>
  C2. The entry point and the matchers are modelled from the spec (sections 2, 4.3 and
  4.5); \<open>check_generic\<close> is the source. Take any finite set of objects and of hints that
  is closed under what a check descends into; objects may contain themselves and hints may
  have themselves as an argument. Then the recursive check of any of these objects against
  any of these hints returns a result, as soon as more nested descents are allowed than
  there are tokens, and it leaves the caller's parents set as it was. The descents are
  bounded because the entry point adds the token of (object identity, hint, context) to a
  copy of the parents set before it descends, so that every descent has fewer tokens left
  to add. A check whose token is already in the parents set, with nothing cached, returns
  valid at once and does not descend. The set made at lines 152 and 153 of the source, which
  is the one a descent into a matcher gets, holds the parents and the token.
\<close>

theorem recursive_check_terminates:
  assumes "closed_universe w m objs hints"
    and "obj \<in> objs" and "type_hint \<in> hints"
    and "parents < next_set s"
    and "card objs * card hints * 4 < fuel"
  shows "(\<exists>s' r. entry_model fuel w m s obj type_hint options parents raise_on_error context
                   = Some (s', r)
                 \<and> sets s' parents = sets s parents)
       \<and> (valid_in_cache s type_hint obj = None
            \<and> (py_id obj, type_hint, context) \<in> sets s parents \<longrightarrow>
          entry_model fuel w m s obj type_hint options parents raise_on_error context
            = Some (s, Inr \<lparr>valid = True, immutable = is_immutable w obj\<rparr>))
       \<and> (case extend_parents s parents (py_id obj, type_hint, context) of
            (s1, guarded) \<Rightarrow>
              sets s1 guarded = insert (py_id obj, type_hint, context) (sets s parents))"
proof -
  let ?U = "tokens objs hints (labels_of m context)"
  from assms(1) have fin: "finite objs" "finite hints" by (simp_all add: closed_universe_def)
  then have fu: "finite ?U" by (rule tokens_finite)
  have "card (?U - sets s parents) \<le> card ?U"
    by (rule card_mono [OF fu]) blast
  also have "\<dots> \<le> card objs * card hints * 4" by (rule card_tokens_le [OF fin])
  finally have c: "card (?U - sets s parents) < fuel" using assms(5) by simp
  have l: "context \<in> labels_of m context" by (simp add: labels_of_def)
  from entry_model_returns [OF assms(1,2,3) l assms(4) c]
  obtain s' r where
    ret: "entry_model fuel w m s obj type_hint options parents raise_on_error context
      = Some (s', r)" by fastforce
  from entry_model_frame ret have "frame s s'" unfolding entry_frame_def by blast
  with assms(4) have same: "sets s' parents = sets s parents" by (simp add: frame_def)
  from assms(5) obtain n where n: "fuel = Suc n" by (cases fuel) auto
  have guard: "valid_in_cache s type_hint obj = None
      \<and> (py_id obj, type_hint, context) \<in> sets s parents \<longrightarrow>
    entry_model fuel w m s obj type_hint options parents raise_on_error context
      = Some (s, Inr \<lparr>valid = True, immutable = is_immutable w obj\<rparr>)"
    by (simp add: n)
  have added: "case extend_parents s parents (py_id obj, type_hint, context) of
      (s1, guarded) \<Rightarrow>
        sets s1 guarded = insert (py_id obj, type_hint, context) (sets s parents)"
    by (simp add: split_def extend_parents_fresh)
  from ret same guard added show ?thesis by blast
qed


theorem recursive_check_terminates_witness:
  "closed_universe cyclic_world cyclic_typing {Addr 30} {Addr 31, AnyT, EllipsisV}
   \<and> Addr 30 \<in> {Addr 30}
   \<and> Addr 31 \<in> {Addr 31, AnyT, EllipsisV}
   \<and> 0 < next_set example_state
   \<and> card {Addr 30} * card {Addr 31, AnyT, EllipsisV} * 4 < (13 :: nat)
   \<and> (\<exists>s'. entry_model 13 cyclic_world cyclic_typing example_state (Addr 30) (Addr 31)
              example_options 0 False '''' =
            Some (s', Inr \<lparr>valid = True, immutable = False\<rparr>)
          \<and> sets s' 0 = sets example_state 0)"
proof -
  have h1: "closed_universe cyclic_world cyclic_typing {Addr 30} {Addr 31, AnyT, EllipsisV}"
    by (rule cyclic_closed)
  have h2: "Addr 30 \<in> {Addr 30}" by simp
  have h3: "Addr 31 \<in> {Addr 31, AnyT, EllipsisV}" by simp
  have h4: "0 < next_set example_state" by (simp add: example_state_def)
  have h5: "card {Addr 30} * card {Addr 31, AnyT, EllipsisV} * 4 < (13 :: nat)" by simp
  from recursive_check_terminates [OF h1 h2 h3 h4 h5, of example_options False "''''"]
  obtain s' r where
    ret: "entry_model 13 cyclic_world cyclic_typing example_state (Addr 30) (Addr 31)
       example_options 0 False '''' = Some (s', r)"
    and same: "sets s' 0 = sets example_state 0" by blast
  from ret cyclic_eval have "r = Inr \<lparr>valid = True, immutable = False\<rparr>" by simp
  with ret same h1 h2 h3 h4 h5 show ?thesis by blast
qed

end
